theory Spec2Isabelle
  imports Main "HOL-Library.Word"
begin

section \<open>The YAPP transfer engine of \<open>src/core/yapp_handler.py\<close>\<close>

text \<open>
  The class \<open>YappHandler\<close> is embedded by explicit state passing: its attributes are the
  fields of the record \<open>yapp\<close>, every method is a function from the state before the call
  to the state after it, and everything the engine does to its collaborators (bytes handed
  to \<open>send_raw\<close>, callbacks, writes to the file, closing it) is appended to the field
  \<open>trace\<close>. Each public method runs under the handler's lock, so a call is one atomic step.
  An exception that leaves a method is a result of that method, together with the state
  the object is left in.
\<close>

subsection \<open>Bytes and strings\<close>

type_synonym byte = "8 word"

text \<open>A Python \<open>str\<close> is a sequence of code points.\<close>

type_synonym pystr = "nat list"

definition lit :: "string \<Rightarrow> pystr" where
  "lit s = map of_char s"

text \<open>\<open>bytes.decode('ascii', errors='replace')\<close>: a byte above 127 becomes U+FFFD.\<close>

definition decode_ascii :: "byte list \<Rightarrow> pystr" where
  "decode_ascii bs = map (\<lambda>b. if unat b < 128 then unat b else 65533) bs"

text \<open>\<open>str.encode('ascii', errors='replace')\<close>: a code point above 127 becomes \<open>?\<close>.\<close>

definition encode_ascii :: "pystr \<Rightarrow> byte list" where
  "encode_ascii cs = map (\<lambda>c. if c < 128 then of_nat c else 63) cs"

text \<open>\<open>str(n)\<close> for an integer.\<close>

function digits :: "nat \<Rightarrow> pystr" where
  "digits n = (if n < 10 then [48 + n] else digits (n div 10) @ [48 + n mod 10])"
  by pat_completeness auto
termination
  by (relation "measure id") auto

definition str_int :: "int \<Rightarrow> pystr" where
  "str_int i = (if i < 0 then 45 # digits (nat (- i)) else digits (nat i))"

text \<open>
  \<open>int(text)\<close> on a string that \<open>decode_ascii\<close> produced (ASCII and U+FFFD only, at most 255
  characters): white space (tab, line feed, vertical tab, form feed, carriage return,
  space) around the number is dropped, one sign is allowed, and single underscores may
  separate digits. \<open>None\<close> stands for \<open>ValueError\<close>.
\<close>

definition is_space :: "nat \<Rightarrow> bool" where
  "is_space c \<longleftrightarrow> (9 \<le> c \<and> c \<le> 13) \<or> c = 32"

definition is_digit :: "nat \<Rightarrow> bool" where
  "is_digit c \<longleftrightarrow> 48 \<le> c \<and> c \<le> 57"

definition strip :: "pystr \<Rightarrow> pystr" where
  "strip cs = rev (dropWhile is_space (rev (dropWhile is_space cs)))"

fun int_digits :: "pystr \<Rightarrow> nat \<Rightarrow> nat option" where
  "int_digits [] acc = Some acc"
| "int_digits [c] acc = (if is_digit c then Some (10 * acc + (c - 48)) else None)"
| "int_digits (c # d # ds) acc =
     (if is_digit c then int_digits (d # ds) (10 * acc + (c - 48))
      else if c = 95 \<and> is_digit d then int_digits ds (10 * acc + (d - 48))
      else None)"

definition py_int :: "pystr \<Rightarrow> int option" where
  "py_int text =
     (case strip text of
        [] \<Rightarrow> None
      | c # cs \<Rightarrow>
          (let body = (if c = 45 \<or> c = 43 then cs else c # cs) in
           case body of
             [] \<Rightarrow> None
           | d # ds \<Rightarrow>
               if is_digit d
               then map_option (\<lambda>n. if c = 45 then - int n else int n) (int_digits ds (d - 48))
               else None))"

text \<open>\<open>bytes.split(b'\x00')\<close>.\<close>

fun split_nul :: "byte list \<Rightarrow> byte list list" where
  "split_nul [] = [[]]"
| "split_nul (b # bs) =
     (if b = 0 then [] # split_nul bs
      else (case split_nul bs of [] \<Rightarrow> [[b]] | p # ps \<Rightarrow> (b # p) # ps))"

text \<open>\<open>os.path.basename\<close> and \<open>os.path.join\<close> of two parts, on POSIX paths.\<close>

definition basename :: "pystr \<Rightarrow> pystr" where
  "basename p = rev (takeWhile (\<lambda>c. c \<noteq> 47) (rev p))"

definition path_join :: "pystr \<Rightarrow> pystr \<Rightarrow> pystr" where
  "path_join a b =
     (if b \<noteq> [] \<and> hd b = 47 then b
      else if a = [] \<or> last a = 47 then a @ b
      else a @ [47] @ b)"

subsection \<open>Enumerations and constants\<close>

datatype YappState =
    IDLE
  | S_INIT | S_HEADER | S_DATA | S_EOF | S_EOT
  | R_WAIT | R_HEADER | R_DATA
  | DONE | ERROR | CW_WAIT

text \<open>\<open>YappEvent\<close>; its member \<open>ERROR\<close> is written \<open>ERROR_EVENT\<close> here.\<close>

datatype YappEvent = INFO | SENT | RECEIVED | ERROR_EVENT | SUCCESS

definition SOH :: byte where "SOH = 0x01"
definition STX :: byte where "STX = 0x02"
definition ETX :: byte where "ETX = 0x03"
definition EOT :: byte where "EOT = 0x04"
definition ENQ :: byte where "ENQ = 0x05"
definition ACK :: byte where "ACK = 0x06"
definition DLE :: byte where "DLE = 0x10"
definition NAK :: byte where "NAK = 0x15"
definition CAN :: byte where "CAN = 0x18"

definition MAX_DATA_LEN :: nat where "MAX_DATA_LEN = 250"
definition MAX_SI_RETRIES :: int where "MAX_SI_RETRIES = 5"

subsection \<open>The handler's state\<close>

text \<open>
  Exceptions that the engine's own statements raise: \<open>bytes([c, n])\<close> with \<open>n > 255\<close>
  (\<open>ValueError\<close>), a method call on \<open>None\<close> (\<open>AttributeError\<close>), reading a file that was
  opened for writing (\<open>UnsupportedOperation\<close>), and \<open>os.makedirs\<close> failing (\<open>OSError\<close>).
\<close>

datatype exn = ValueError | AttributeError | UnsupportedOperation | OSError

text \<open>
  An open file: one opened with \<open>'rb'\<close> has the bytes that reading it to the end yields and
  the read position, one opened with \<open>'wb'\<close> has its path (what is written goes to the
  trace).
\<close>

datatype pyfile = Reader "byte list" nat | Writer pystr

text \<open>What the engine does to its collaborators, in order.\<close>

datatype effect =
    Send "byte list"
  | Log YappEvent pystr
  | Progress int int
  | Finished bool pystr
  | RxData "byte list"
  | FileWrite "byte list"
  | FileClose

text \<open>Which of the five optional callbacks were given to the constructor.\<close>

record callbacks =
  send_raw :: bool
  on_progress :: bool
  on_event :: bool
  on_finished :: bool
  on_rx_data :: bool

text \<open>
  \<open>timer\<close> is \<open>self._timer is not None\<close>. \<open>open_results\<close> and \<open>write_results\<close> are the
  file system as the engine meets it: the outcomes of the coming calls of
  \<open>open(filepath, 'wb')\<close> and of \<open>write\<close> on a file opened for writing, in order, where
  \<open>Some msg\<close> is an exception \<open>e\<close> with \<open>str(e) = msg\<close> and an exhausted list means success.
  Reading an open file, \<open>seek\<close>, \<open>close\<close> and the callbacks themselves are taken not to
  raise.
\<close>

record yapp =
  cb :: callbacks
  state :: YappState
  rx_buf :: "byte list"
  file_handle :: "pyfile option"
  filename :: pystr
  file_size :: int
  bytes_transferred :: int
  download_dir :: pystr
  timer :: bool
  si_retries :: int
  open_results :: "pystr option list"
  write_results :: "pystr option list"
  trace :: "effect list"

definition init :: "callbacks \<Rightarrow> pystr option list \<Rightarrow> pystr option list \<Rightarrow> yapp" where
  "init c opens writes =
     \<lparr>cb = c, state = IDLE, rx_buf = [], file_handle = None, filename = [], file_size = 0,
      bytes_transferred = 0, download_dir = [], timer = False, si_retries = 0,
      open_results = opens, write_results = writes, trace = []\<rparr>"

subsection \<open>Helpers\<close>

definition emit :: "effect \<Rightarrow> yapp \<Rightarrow> yapp" where
  "emit e s = s\<lparr>trace := trace s @ [e]\<rparr>"

definition send_packet :: "byte list \<Rightarrow> yapp \<Rightarrow> yapp" where
  "send_packet data s = (if send_raw (cb s) then emit (Send data) s else s)"

definition update_progress :: "yapp \<Rightarrow> yapp" where
  "update_progress s =
     (if on_progress (cb s) then emit (Progress (bytes_transferred s) (file_size s)) s else s)"

definition log :: "YappEvent \<Rightarrow> pystr \<Rightarrow> yapp \<Rightarrow> yapp" where
  "log event_type message s = (if on_event (cb s) then emit (Log event_type message) s else s)"

definition cancel_timer :: "yapp \<Rightarrow> yapp" where
  "cancel_timer s = (if timer s then s\<lparr>timer := False\<rparr> else s)"

definition start_timer :: "yapp \<Rightarrow> yapp" where
  "start_timer s = (cancel_timer s)\<lparr>timer := True\<rparr>"

definition finish :: "bool \<Rightarrow> pystr \<Rightarrow> yapp \<Rightarrow> yapp" where
  "finish success message s =
     (let s1 = cancel_timer s;
          s2 = (if file_handle s1 \<noteq> None then (emit FileClose s1)\<lparr>file_handle := None\<rparr> else s1);
          s3 = s2\<lparr>state := (if success then DONE else ERROR)\<rparr>;
          s4 = log (if success then SUCCESS else ERROR_EVENT) message s3
      in if on_finished (cb s4) then emit (Finished success message) s4 else s4)"

definition reset :: "yapp \<Rightarrow> yapp" where
  "reset s =
     (let s1 = cancel_timer s;
          s2 = (if file_handle s1 \<noteq> None then emit FileClose s1 else s1)
      in s2\<lparr>file_handle := None, filename := [], file_size := 0, bytes_transferred := 0,
            rx_buf := [], si_retries := 0, state := IDLE\<rparr>)"

definition reset_to_idle :: "yapp \<Rightarrow> yapp" where
  "reset_to_idle s = reset s"

definition is_active :: "yapp \<Rightarrow> bool" where
  "is_active s \<longleftrightarrow> state s \<notin> {IDLE, DONE, ERROR}"

text \<open>
  Sequencing with exceptions: \<open>and_then r k\<close> goes on with \<open>k\<close> unless \<open>r\<close> raised.
  \<open>next_result\<close> reads the outcome of the coming call from a list of outcomes.
\<close>

definition and_then :: "exn option \<times> yapp \<Rightarrow> (yapp \<Rightarrow> yapp) \<Rightarrow> exn option \<times> yapp" where
  "and_then r k = (case fst r of Some e \<Rightarrow> (Some e, snd r) | None \<Rightarrow> (None, k (snd r)))"

definition lift_exn :: "exn option \<times> yapp \<Rightarrow> (exn + bool) \<times> yapp" where
  "lift_exn r = (case fst r of Some e \<Rightarrow> (Inl e, snd r) | None \<Rightarrow> (Inr True, snd r))"

definition next_result :: "pystr option list \<Rightarrow> pystr option" where
  "next_result rs = (case rs of [] \<Rightarrow> None | r # later \<Rightarrow> r)"

subsection \<open>Protocol packet builders\<close>

text \<open>\<open>bytes([c, n])\<close> raises \<open>ValueError\<close> unless \<open>n\<close> is in \<open>range(0, 256)\<close>.\<close>

definition bytes2 :: "byte \<Rightarrow> nat \<Rightarrow> exn + byte list" where
  "bytes2 c n = (if n < 256 then Inr [c, of_nat n] else Inl ValueError)"

definition send_si :: "yapp \<Rightarrow> yapp" where
  "send_si s = start_timer (log SENT (lit ''SI (Send Init)'') (send_packet [ENQ, 0x01] s))"

definition header_payload :: "yapp \<Rightarrow> byte list" where
  "header_payload s =
     encode_ascii (filename s) @ [0] @ encode_ascii (str_int (file_size s)) @ [0]"

definition send_header :: "yapp \<Rightarrow> exn option \<times> yapp" where
  "send_header s =
     (let payload = header_payload s in
      case bytes2 SOH (length payload) of
        Inl e \<Rightarrow> (Some e, s)
      | Inr hd2 \<Rightarrow>
          (let s1 = send_packet (hd2 @ payload) s;
               s2 = log SENT (lit ''HD (Header) file='' @ filename s1 @ lit '' size=''
                                @ str_int (file_size s1)) s1;
               s3 = s2\<lparr>state := S_HEADER\<rparr>
           in (None, start_timer s3)))"

definition send_data_block :: "yapp \<Rightarrow> (exn + bool) \<times> yapp" where
  "send_data_block s =
     (case file_handle s of
        None \<Rightarrow> (Inr False, s)
      | Some (Writer p) \<Rightarrow> (Inl UnsupportedOperation, s)
      | Some (Reader content pos) \<Rightarrow>
          (let data = take MAX_DATA_LEN (drop pos content) in
           if data = [] then (Inr False, s)
           else
             (let len = length data;
                  len_byte = (if len < 256 then of_nat len else 0);
                  pkt = [STX, len_byte] @ data;
                  s1 = send_packet pkt (s\<lparr>file_handle := Some (Reader content (pos + len))\<rparr>);
                  s2 = s1\<lparr>bytes_transferred := bytes_transferred s1 + int len\<rparr>
              in (Inr True, update_progress s2))))"

definition send_eof :: "yapp \<Rightarrow> yapp" where
  "send_eof s =
     start_timer ((log SENT (lit ''EF (End of File)'') (send_packet [ETX, 0x01] s))\<lparr>state := S_EOF\<rparr>)"

definition send_eot :: "yapp \<Rightarrow> yapp" where
  "send_eot s =
     start_timer ((log SENT (lit ''ET (End of Transmission)'') (send_packet [EOT, 0x01] s))\<lparr>state := S_EOT\<rparr>)"

definition send_rr :: "yapp \<Rightarrow> yapp" where
  "send_rr s = log SENT (lit ''RR (Receive Ready)'') (send_packet [ACK, 0x01] s)"

definition send_rf :: "yapp \<Rightarrow> yapp" where
  "send_rf s = log SENT (lit ''RF (Receive File)'') (send_packet [ACK, 0x02] s)"

definition send_af :: "yapp \<Rightarrow> yapp" where
  "send_af s = log SENT (lit ''AF (Ack End of File)'') (send_packet [ACK, 0x03] s)"

definition send_at :: "yapp \<Rightarrow> yapp" where
  "send_at s = log SENT (lit ''AT (Ack End of Transmission)'') (send_packet [ACK, 0x04] s)"

definition send_nr :: "pystr \<Rightarrow> yapp \<Rightarrow> exn option \<times> yapp" where
  "send_nr reason s =
     (let payload = encode_ascii reason in
      case bytes2 NAK (length payload) of
        Inl e \<Rightarrow> (Some e, s)
      | Inr hd2 \<Rightarrow>
          (None, log SENT (lit ''NR (Not Ready) '' @ reason) (send_packet (hd2 @ payload) s)))"

definition send_cancel :: "pystr \<Rightarrow> yapp \<Rightarrow> exn option \<times> yapp" where
  "send_cancel reason s =
     (let payload = encode_ascii reason in
      case bytes2 CAN (length payload) of
        Inl e \<Rightarrow> (Some e, s)
      | Inr hd2 \<Rightarrow>
          (None, log SENT (lit ''CN (Cancel) '' @ reason) (send_packet (hd2 @ payload) s)))"

definition send_ca :: "yapp \<Rightarrow> yapp" where
  "send_ca s = log SENT (lit ''CA (Cancel Ack)'') (send_packet [ACK, 0x05] s)"

subsection \<open>Data send loop\<close>

text \<open>What is left to read from the open file.\<close>

definition unread :: "yapp \<Rightarrow> nat" where
  "unread s = (case file_handle s of Some (Reader content pos) \<Rightarrow> length content - pos | _ \<Rightarrow> 0)"

function send_data_loop :: "yapp \<Rightarrow> exn option \<times> yapp" where
  "send_data_loop s =
     (if state s = S_DATA then
        (case send_data_block s of
           (Inl e, s1) \<Rightarrow> (Some e, s1)
         | (Inr again, s1) \<Rightarrow>
             if again then send_data_loop s1
             else
               (let s2 = (if file_handle s1 \<noteq> None
                          then (emit FileClose s1)\<lparr>file_handle := None\<rparr> else s1)
                in (None, send_eof s2)))
      else (None, s))"
  by pat_completeness auto
termination
  by (relation "measure unread")
     (auto simp: send_data_block_def unread_def Let_def send_packet_def update_progress_def
        emit_def MAX_DATA_LEN_def split: option.splits pyfile.splits if_splits)

declare send_data_loop.simps [simp del]

subsection \<open>Header parsing\<close>

definition parse_header :: "byte list \<Rightarrow> yapp \<Rightarrow> exn option \<times> yapp" where
  "parse_header payload s =
     (let parts = split_nul payload;
          s1 = (if length parts \<ge> 2
                then s\<lparr>filename := decode_ascii (parts ! 0),
                       file_size := (case py_int (decode_ascii (parts ! 1)) of
                                       Some n \<Rightarrow> n | None \<Rightarrow> 0)\<rparr>
                else s);
          s2 = log RECEIVED (lit ''HD (Header) file='' @ filename s1 @ lit '' size=''
                               @ str_int (file_size s1)) s1
      in if filename s2 = [] then
           and_then (send_nr (lit ''Invalid filename'') s2)
             (finish False (lit ''Invalid filename in header''))
         else
           (let filepath = path_join (download_dir s2) (filename s2) in
            case next_result (open_results s2) of
              Some e \<Rightarrow>
                and_then (send_nr (lit ''Cannot create file: '' @ e)
                            (s2\<lparr>open_results := tl (open_results s2)\<rparr>))
                  (finish False (lit ''Cannot create file: '' @ e))
            | None \<Rightarrow>
                (let s3 = s2\<lparr>open_results := tl (open_results s2),
                             file_handle := Some (Writer filepath), bytes_transferred := 0\<rparr>;
                     s4 = (send_rf s3)\<lparr>state := R_DATA\<rparr>
                 in (None, log INFO (lit ''Receiving '' @ filename s4 @ lit ''...'') s4))))"

subsection \<open>Buffer processing and the state machine\<close>

text \<open>
  The handlers take the first two bytes of the buffer and return whether bytes were
  consumed (\<open>Inr True\<close>), more data is needed (\<open>Inr False\<close>), or an exception left them.
\<close>

definition seek0 :: "pyfile \<Rightarrow> pyfile" where
  "seek0 f = (case f of Reader content pos \<Rightarrow> Reader content 0 | Writer p \<Rightarrow> Writer p)"

definition process_sender_response :: "byte \<Rightarrow> byte \<Rightarrow> yapp \<Rightarrow> (exn + bool) \<times> yapp" where
  "process_sender_response first second s =
     (let s0 = cancel_timer s in
      if first = ACK then
        (let s1 = s0\<lparr>rx_buf := drop 2 (rx_buf s0)\<rparr> in
         if second = 0x01 then
           (let s2 = log RECEIVED (lit ''RR (Receive Ready)'') s1 in
            if state s2 = S_INIT then lift_exn (send_header s2) else (Inr True, s2))
         else if second = 0x02 then
           (let s2 = log RECEIVED (lit ''RF (Receive File)'') s1 in
            if state s2 \<in> {S_INIT, S_HEADER}
            then lift_exn (send_data_loop (log INFO (lit ''Sending data...'') (s2\<lparr>state := S_DATA\<rparr>)))
            else (Inr True, s2))
         else if second = 0x03 then
           (let s2 = log RECEIVED (lit ''AF (Ack End of File)'') s1 in
            if state s2 = S_EOF then (Inr True, send_eot s2) else (Inr True, s2))
         else if second = 0x04 then
           (let s2 = log RECEIVED (lit ''AT (Ack End of Transmission)'') s1 in
            if state s2 = S_EOT
            then (Inr True, finish True (lit ''File sent successfully: '' @ filename s2) s2)
            else (Inr True, s2))
         else if second = 0x05 then
           (let s2 = log RECEIVED (lit ''CA (Cancel Ack)'') s1 in
            (Inr True, finish False (lit ''Transfer cancelled'') s2))
         else if second = ACK then
           (let s2 = log RECEIVED (lit ''RT (YappC requested - not supported, using standard)'') s1 in
            if state s2 \<in> {S_INIT, S_HEADER}
            then lift_exn (send_data_loop (s2\<lparr>state := S_DATA\<rparr>))
            else (Inr True, s2))
         else (Inr True, s1))
      else if first = NAK then
        (let len = unat second in
         if length (rx_buf s0) < 2 + len then (Inr False, s0)
         else
           (let payload = take len (drop 2 (rx_buf s0));
                s1 = s0\<lparr>rx_buf := drop (2 + len) (rx_buf s0)\<rparr>
            in if payload \<noteq> [] \<and> take 1 payload = [0x52] then
                 (let s2 = log RECEIVED (lit ''RE (Resume) - not supported, restarting'') s1 in
                  if state s2 = S_HEADER then
                    (case file_handle s2 of
                       None \<Rightarrow> (Inl AttributeError, s2)
                     | Some f \<Rightarrow>
                         lift_exn (send_header (s2\<lparr>file_handle := Some (seek0 f),
                                                    bytes_transferred := 0\<rparr>)))
                  else (Inr True, s2))
               else
                 (let reason = decode_ascii payload;
                      s2 = log RECEIVED (lit ''NR (Not Ready) '' @ reason) s1
                  in (Inr True, finish False (lit ''Remote not ready: '' @ reason) s2))))
      else (Inr True, s0\<lparr>rx_buf := drop 1 (rx_buf s0)\<rparr>))"

definition process_receiver_control :: "byte \<Rightarrow> byte \<Rightarrow> yapp \<Rightarrow> (exn + bool) \<times> yapp" where
  "process_receiver_control first second s =
     (let s0 = cancel_timer s in
      if first = ENQ \<and> second = 0x01 then
        (let s1 = s0\<lparr>rx_buf := drop 2 (rx_buf s0)\<rparr>;
             s2 = send_rr (log RECEIVED (lit ''SI (Send Init)'') s1)
         in (Inr True, start_timer (s2\<lparr>state := R_HEADER\<rparr>)))
      else if first = SOH then
        (let len = unat second in
         if length (rx_buf s0) < 2 + len then (Inr False, s0)
         else
           (let payload = take len (drop 2 (rx_buf s0));
                s1 = s0\<lparr>rx_buf := drop (2 + len) (rx_buf s0)\<rparr>
            in lift_exn (parse_header payload s1)))
      else if first = EOT \<and> second = 0x01 then
        (let s1 = s0\<lparr>rx_buf := drop 2 (rx_buf s0)\<rparr>;
             s2 = send_at (log RECEIVED (lit ''ET (End of Transmission)'') s1)
         in (Inr True, finish True (lit ''Transfer complete (no files)'') s2))
      else if first = ENQ \<and> second = 0x01 then
        (Inr True, send_rr (s0\<lparr>rx_buf := drop 2 (rx_buf s0)\<rparr>))
      else (Inr True, s0\<lparr>rx_buf := drop 1 (rx_buf s0)\<rparr>))"

text \<open>
  \<open>write\<close> on the open file: the message of the exception it raises, if it does, and the
  state after it. A file opened for reading refuses with the message \<open>write\<close>.
\<close>

definition file_write :: "pyfile \<Rightarrow> byte list \<Rightarrow> yapp \<Rightarrow> pystr option \<times> yapp" where
  "file_write f data s =
     (case f of
        Reader content pos \<Rightarrow> (Some (lit ''write''), s)
      | Writer p \<Rightarrow>
          (case next_result (write_results s) of
             Some e \<Rightarrow> (Some e, s\<lparr>write_results := tl (write_results s)\<rparr>)
           | None \<Rightarrow> (None, emit (FileWrite data) (s\<lparr>write_results := tl (write_results s)\<rparr>))))"

definition process_receiver_data :: "byte \<Rightarrow> byte \<Rightarrow> yapp \<Rightarrow> (exn + bool) \<times> yapp" where
  "process_receiver_data first second s =
     (if first = STX then
        (let len = (if second \<noteq> 0 then unat second else 256) in
         if length (rx_buf s) < 2 + len then (Inr False, s)
         else
           (let data = take len (drop 2 (rx_buf s));
                s1 = s\<lparr>rx_buf := drop (2 + len) (rx_buf s)\<rparr>
            in case file_handle s1 of
                 None \<Rightarrow> (Inr True, s1)
               | Some f \<Rightarrow>
                   (let s2 = snd (file_write f data s1) in
                    case fst (file_write f data s1) of
                      None \<Rightarrow>
                        (Inr True,
                         update_progress (s2\<lparr>bytes_transferred := bytes_transferred s2 + int len\<rparr>))
                    | Some e \<Rightarrow>
                        lift_exn (and_then (send_cancel (lit ''Write error: '' @ e) s2)
                                    (finish False (lit ''File write error: '' @ e))))))
      else if first = ETX \<and> second = 0x01 then
        (let s1 = log RECEIVED (lit ''EF (End of File)'') (s\<lparr>rx_buf := drop 2 (rx_buf s)\<rparr>);
             s2 = (if file_handle s1 \<noteq> None
                   then (emit FileClose s1)\<lparr>file_handle := None\<rparr> else s1);
             s3 = start_timer ((send_af s2)\<lparr>state := R_HEADER\<rparr>)
         in (Inr True,
             log SUCCESS (lit ''File received: '' @ filename s3 @ lit '' (''
                            @ str_int (bytes_transferred s3) @ lit '' bytes)'') s3))
      else if first = EOT \<and> second = 0x01 then
        (let s1 = log RECEIVED (lit ''ET (End of Transmission)'') (s\<lparr>rx_buf := drop 2 (rx_buf s)\<rparr>);
             s2 = (if file_handle s1 \<noteq> None
                   then (emit FileClose s1)\<lparr>file_handle := None\<rparr> else s1);
             s3 = send_at s2
         in (Inr True,
             finish True (lit ''Received '' @ filename s3 @ lit '' (''
                            @ str_int (bytes_transferred s3) @ lit '' bytes)'') s3))
      else if first = CAN then
        (let len = unat second in
         if length (rx_buf s) < 2 + len then (Inr False, s)
         else
           (let s1 = send_ca (s\<lparr>rx_buf := drop (2 + len) (rx_buf s)\<rparr>)
            in (Inr True, finish False (lit ''Cancelled by remote'') s1)))
      else (Inr True, s\<lparr>rx_buf := drop 1 (rx_buf s)\<rparr>))"

definition process_sender_data_interrupt :: "byte \<Rightarrow> byte \<Rightarrow> yapp \<Rightarrow> (exn + bool) \<times> yapp" where
  "process_sender_data_interrupt first second s =
     (if first = DLE then
        (let len = unat second in
         if length (rx_buf s) < 2 + len then (Inr False, s)
         else
           (let text = decode_ascii (take len (drop 2 (rx_buf s)));
                s1 = s\<lparr>rx_buf := drop (2 + len) (rx_buf s)\<rparr>
            in (Inr True, log RECEIVED (lit ''TX: '' @ text) s1)))
      else
        lift_exn (and_then (send_cancel (lit ''Unexpected data during send'') (s\<lparr>rx_buf := []\<rparr>))
                    (finish False (lit ''Protocol error: unexpected data during send''))))"

text \<open>
  One pass through the body of the \<open>while\<close> loop of \<open>_process_buffer\<close>, entered with at
  least two bytes buffered. \<open>Inr True\<close>: the loop goes round again; \<open>Inr False\<close>: the
  method returns.
\<close>

definition loop_body :: "yapp \<Rightarrow> (exn + bool) \<times> yapp" where
  "loop_body s =
     (let first = rx_buf s ! 0; second = rx_buf s ! 1 in
      if first = CAN then
        (let len = unat second in
         if length (rx_buf s) < 2 + len then (Inr False, s)
         else
           (let reason = decode_ascii (take len (drop 2 (rx_buf s)));
                s1 = s\<lparr>rx_buf := drop (2 + len) (rx_buf s)\<rparr>;
                s2 = send_ca (log RECEIVED (lit ''CN (Cancel) '' @ reason) s1)
            in (Inr False, finish False (lit ''Cancelled by remote: '' @ reason) s2)))
      else if state s \<in> {S_INIT, S_HEADER, S_EOF, S_EOT} then process_sender_response first second s
      else if state s \<in> {R_WAIT, R_HEADER} then process_receiver_control first second s
      else if state s = R_DATA then process_receiver_data first second s
      else if state s = S_DATA then process_sender_data_interrupt first second s
      else (Inr False, s\<lparr>rx_buf := []\<rparr>))"

function process_buffer :: "yapp \<Rightarrow> exn option \<times> yapp" where
  "process_buffer s =
     (if length (rx_buf s) \<ge> 2 then
        (case loop_body s of
           (Inl e, s1) \<Rightarrow> (Some e, s1)
         | (Inr again, s1) \<Rightarrow> if again then process_buffer s1 else (None, s1))
      else (None, s))"
  by pat_completeness auto

subsection \<open>Public API and the crash timer\<close>

text \<open>
  What \<open>start_send\<close> finds at \<open>filepath\<close>: nothing, a file that \<open>os.path.getsize\<close> or
  \<open>open\<close> fails on with the given message, or a file for which \<open>os.path.getsize\<close> returns
  the given size and whose handle, read to its end later on, yields the given bytes. The
  two are independent: the size is taken once, at the start, and nothing ties the bytes
  read afterwards to it (a file that grows in between yields more, a file of \<open>/proc\<close>
  reports the size 0).
\<close>

datatype path_status = Missing | Unreadable pystr | Present nat "byte list"

definition start_send :: "pystr \<Rightarrow> path_status \<Rightarrow> yapp \<Rightarrow> (bool \<times> pystr) \<times> yapp" where
  "start_send filepath found s =
     (if state s \<noteq> IDLE then ((False, lit ''Transfer already in progress''), s)
      else
        (case found of
           Missing \<Rightarrow> ((False, lit ''File not found: '' @ filepath), s)
         | Unreadable e \<Rightarrow> ((False, lit ''Error: '' @ e), reset (s\<lparr>filename := basename filepath\<rparr>))
         | Present fsize content \<Rightarrow>
             (let s1 = s\<lparr>filename := basename filepath, file_size := int fsize,
                         file_handle := Some (Reader content 0), bytes_transferred := 0,
                         si_retries := 0, state := S_INIT, rx_buf := []\<rparr>;
                  s2 = log INFO (lit ''Starting send: '' @ filename s1 @ lit '' (''
                                   @ str_int (file_size s1) @ lit '' bytes)'') s1
              in ((True, lit ''Sending '' @ filename s2), send_si s2))))"

text \<open>\<open>dir_ok\<close>: whether \<open>os.makedirs(download_dir, exist_ok=True)\<close> succeeds.\<close>

definition start_receive :: "pystr \<Rightarrow> bool \<Rightarrow> yapp \<Rightarrow> (exn + bool \<times> pystr) \<times> yapp" where
  "start_receive dir dir_ok s =
     (if state s \<noteq> IDLE then (Inr (False, lit ''Transfer already in progress''), s)
      else if \<not> dir_ok then (Inl OSError, s)
      else
        (let s1 = s\<lparr>download_dir := dir, rx_buf := [], bytes_transferred := 0, filename := [],
                    file_size := 0, state := R_WAIT\<rparr>;
             s2 = log INFO (lit ''Waiting for sender (SI)...'') s1
         in (Inr (True, lit ''Waiting for file transfer''), start_timer s2)))"

definition process_data :: "byte list \<Rightarrow> yapp \<Rightarrow> exn option \<times> yapp" where
  "process_data data s =
     (if state s = IDLE then (None, if on_rx_data (cb s) then emit (RxData data) s else s)
      else process_buffer (s\<lparr>rx_buf := rx_buf s @ data\<rparr>))"

definition cancel :: "yapp \<Rightarrow> exn option \<times> yapp" where
  "cancel s =
     (if state s \<in> {IDLE, DONE, ERROR} then (None, s)
      else
        and_then (send_cancel (lit ''Cancelled by user'') s)
          (finish False (lit ''Transfer cancelled by user'')))"

definition on_timeout :: "yapp \<Rightarrow> exn option \<times> yapp" where
  "on_timeout s =
     (if state s = S_INIT \<and> si_retries s < MAX_SI_RETRIES then
        (let s1 = s\<lparr>si_retries := si_retries s + 1\<rparr>;
             s2 = log INFO (lit ''Timeout, retrying SI ('' @ str_int (si_retries s1) @ lit ''/''
                              @ str_int MAX_SI_RETRIES @ lit '')...'') s1
         in (None, send_si s2))
      else if state s \<noteq> IDLE then
        and_then (send_cancel (lit ''Timeout'')
                    (log ERROR_EVENT (lit ''Timeout - no response from remote'') s))
          (finish False (lit ''Timeout: no response from remote station''))
      else (None, s))"

subsection \<open>Example states\<close>

definition all_callbacks :: callbacks where
  "all_callbacks = \<lparr>send_raw = True, on_progress = True, on_event = True, on_finished = True,
                     on_rx_data = True\<rparr>"

definition sending_example :: yapp where
  "sending_example = snd (start_send (lit ''/tmp/a.txt'') (Present 3 [0x41, 0x42, 0x43]) (init all_callbacks [] []))"

subsection \<open>Observers used in the statements\<close>

text \<open>How many SendInit packets were handed to \<open>send_raw\<close> so far.\<close>

definition si_sent :: "yapp \<Rightarrow> nat" where
  "si_sent s = count_list (trace s) (Send [ENQ, 0x01])"

text \<open>The crash timer expiring \<open>n\<close> times in a row, with nothing else happening.\<close>

definition timeouts :: "nat \<Rightarrow> yapp \<Rightarrow> yapp" where
  "timeouts n s = ((\<lambda>t. snd (on_timeout t)) ^^ n) s"

text \<open>A receiver that has accepted a header: \<open>R_DATA\<close>, the file open for writing.\<close>

definition receiving_example :: yapp where
  "receiving_example =
     \<lparr>cb = all_callbacks, state = R_DATA, rx_buf = [], file_handle = Some (Writer (lit ''/tmp/in/f'')),
      filename = lit ''f'', file_size = 5, bytes_transferred = 0, download_dir = lit ''/tmp/in'',
      timer = False, si_retries = 0, open_results = [], write_results = [], trace = []\<rparr>"

text \<open>The sender of \<open>sending_example\<close> put into the state of the data loop.\<close>

definition sending_data_example :: yapp where
  "sending_data_example = sending_example\<lparr>state := S_DATA\<rparr>"

text \<open>
  The bytes of a length-prefixed packet as \<open>_send_header\<close>, \<open>_send_nr\<close> and \<open>_send_cancel\<close>
  build them (\<open>bytes([c, len(payload)]) + payload\<close>), and those of a Data packet as
  \<open>_send_data_block\<close> builds them.
\<close>

definition frame :: "byte \<Rightarrow> byte list \<Rightarrow> byte list" where
  "frame c payload = [c, of_nat (length payload)] @ payload"

definition data_frame :: "byte list \<Rightarrow> byte list" where
  "data_frame data = [STX, if length data < 256 then of_nat (length data) else 0] @ data"

text \<open>
  \<open>extends s s'\<close>: the trace of \<open>s'\<close> continues that of \<open>s\<close>. \<open>reaction s\<close>: what one decode step
  on \<open>s\<close> does to the collaborators.
\<close>

definition extends :: "yapp \<Rightarrow> yapp \<Rightarrow> bool" where
  "extends s s' \<longleftrightarrow> take (length (trace s)) (trace s') = trace s"

definition reaction :: "yapp \<Rightarrow> effect list" where
  "reaction s = drop (length (trace s)) (trace (snd (loop_body s)))"

text \<open>\<open>logs_received s msg\<close>: the first thing one decode step on \<open>s\<close> does is to log the
  reception \<open>msg\<close>.\<close>

definition logs_received :: "yapp \<Rightarrow> pystr \<Rightarrow> bool" where
  "logs_received s msg \<longleftrightarrow> take 1 (reaction s) = [Log RECEIVED msg]"

text \<open>A receiver waiting for SendInit, and the sender of \<open>sending_example\<close> after ReceiveReady.\<close>

definition waiting_example :: yapp where
  "waiting_example = snd (start_receive (lit ''/tmp/in'') True (init all_callbacks [] []))"

definition header_sent_example :: yapp where
  "header_sent_example = snd (process_data [ACK, 0x01] sending_example)"

text \<open>
  A receiver that was told a file size of 5 in the header and then got a Data packet of 10
  bytes.
\<close>

definition overrun_example :: yapp where
  "overrun_example =
     snd (process_data (data_frame (replicate 10 0x41))
       (snd (process_data (frame SOH [0x66, 0, 0x35, 0])
         (snd (process_data [ENQ, 0x01] waiting_example)))))"

text \<open>
  The same sender as \<open>sending_example\<close>, but the file has grown from 3 to 8 bytes between
  \<open>start_send\<close> and the reading, and the peer has answered with ReceiveFile.
\<close>

definition grown_file_example :: yapp where
  "grown_file_example =
     snd (process_data [ACK, 0x02]
       (snd (start_send (lit ''/tmp/a.txt'')
              (Present 3 [0x41, 0x42, 0x43, 0x44, 0x45, 0x46, 0x47, 0x48])
              (init all_callbacks [] []))))"

text \<open>
  A session started by \<open>start_send\<close> on a file of reported size \<open>fsize\<close> that yields the
  bytes \<open>content\<close>: the states the engine goes through afterwards, whatever bytes arrive,
  whenever the timer expires or the user cancels, and whatever further \<open>start_send\<close> and
  \<open>start_receive\<close> calls are made (they are refused) until the engine is reset.
\<close>

inductive sending :: "nat \<Rightarrow> byte list \<Rightarrow> yapp \<Rightarrow> bool"
  for fsize :: nat and content :: "byte list" where
  started: "state s0 = IDLE \<Longrightarrow>
              sending fsize content (snd (start_send filepath (Present fsize content) s0))"
| data: "sending fsize content s \<Longrightarrow> sending fsize content (snd (process_data bytes s))"
| timeout: "sending fsize content s \<Longrightarrow> sending fsize content (snd (on_timeout s))"
| cancelled: "sending fsize content s \<Longrightarrow> sending fsize content (snd (cancel s))"
| send_again: "sending fsize content s \<Longrightarrow>
                 sending fsize content (snd (start_send filepath found s))"
| receive_again: "sending fsize content s \<Longrightarrow>
                    sending fsize content (snd (start_receive dir dir_ok s))"

text \<open>
  What holds of the counter in such a session: it is the read position of the file, and
  \<open>file_size\<close> stays what \<open>os.path.getsize\<close> returned.
\<close>

definition sender_inv :: "nat \<Rightarrow> nat \<Rightarrow> yapp \<Rightarrow> bool" where
  "sender_inv fsize n s \<longleftrightarrow>
     state s \<in> {S_INIT, S_HEADER, S_DATA, S_EOF, S_EOT, DONE, ERROR} \<and>
     file_size s = int fsize \<and>
     (case file_handle s of
        None \<Rightarrow> 0 \<le> bytes_transferred s \<and> bytes_transferred s \<le> int n
      | Some (Reader content pos) \<Rightarrow>
          bytes_transferred s = int pos \<and> pos \<le> length content \<and> length content = n
      | Some (Writer p) \<Rightarrow> False)"

section \<open>Properties\<close>

lemmas ctrl_defs = SOH_def STX_def ETX_def EOT_def ENQ_def ACK_def DLE_def NAK_def CAN_def

subsection \<open>What each helper leaves unchanged\<close>

lemma emit_frame [simp]:
  "cb (emit e s) = cb s"
  "state (emit e s) = state s"
  "rx_buf (emit e s) = rx_buf s"
  "file_handle (emit e s) = file_handle s"
  "filename (emit e s) = filename s"
  "file_size (emit e s) = file_size s"
  "bytes_transferred (emit e s) = bytes_transferred s"
  "download_dir (emit e s) = download_dir s"
  "timer (emit e s) = timer s"
  "si_retries (emit e s) = si_retries s"
  "open_results (emit e s) = open_results s"
  "write_results (emit e s) = write_results s"
  "trace (emit e s) = trace s @ [e]"
  by (simp_all add: emit_def)

lemma send_packet_frame [simp]:
  "cb (send_packet d s) = cb s"
  "state (send_packet d s) = state s"
  "rx_buf (send_packet d s) = rx_buf s"
  "file_handle (send_packet d s) = file_handle s"
  "filename (send_packet d s) = filename s"
  "file_size (send_packet d s) = file_size s"
  "bytes_transferred (send_packet d s) = bytes_transferred s"
  "download_dir (send_packet d s) = download_dir s"
  "timer (send_packet d s) = timer s"
  "si_retries (send_packet d s) = si_retries s"
  "open_results (send_packet d s) = open_results s"
  "write_results (send_packet d s) = write_results s"
  "trace (send_packet d s) = trace s @ (if send_raw (cb s) then [Send d] else [])"
  by (simp_all add: send_packet_def)

lemma update_progress_frame [simp]:
  "cb (update_progress s) = cb s"
  "state (update_progress s) = state s"
  "rx_buf (update_progress s) = rx_buf s"
  "file_handle (update_progress s) = file_handle s"
  "filename (update_progress s) = filename s"
  "file_size (update_progress s) = file_size s"
  "bytes_transferred (update_progress s) = bytes_transferred s"
  "download_dir (update_progress s) = download_dir s"
  "timer (update_progress s) = timer s"
  "si_retries (update_progress s) = si_retries s"
  "open_results (update_progress s) = open_results s"
  "write_results (update_progress s) = write_results s"
  "trace (update_progress s) = trace s @ (if on_progress (cb s) then [Progress (bytes_transferred s) (file_size s)] else [])"
  by (simp_all add: update_progress_def)

lemma log_frame [simp]:
  "cb (log ev m s) = cb s"
  "state (log ev m s) = state s"
  "rx_buf (log ev m s) = rx_buf s"
  "file_handle (log ev m s) = file_handle s"
  "filename (log ev m s) = filename s"
  "file_size (log ev m s) = file_size s"
  "bytes_transferred (log ev m s) = bytes_transferred s"
  "download_dir (log ev m s) = download_dir s"
  "timer (log ev m s) = timer s"
  "si_retries (log ev m s) = si_retries s"
  "open_results (log ev m s) = open_results s"
  "write_results (log ev m s) = write_results s"
  "trace (log ev m s) = trace s @ (if on_event (cb s) then [Log ev m] else [])"
  by (simp_all add: log_def)

lemma cancel_timer_frame [simp]:
  "cb (cancel_timer s) = cb s"
  "state (cancel_timer s) = state s"
  "rx_buf (cancel_timer s) = rx_buf s"
  "file_handle (cancel_timer s) = file_handle s"
  "filename (cancel_timer s) = filename s"
  "file_size (cancel_timer s) = file_size s"
  "bytes_transferred (cancel_timer s) = bytes_transferred s"
  "download_dir (cancel_timer s) = download_dir s"
  "si_retries (cancel_timer s) = si_retries s"
  "open_results (cancel_timer s) = open_results s"
  "write_results (cancel_timer s) = write_results s"
  "trace (cancel_timer s) = trace s"
  "timer (cancel_timer s) = False"
  by (simp_all add: cancel_timer_def)

lemma start_timer_frame [simp]:
  "cb (start_timer s) = cb s"
  "state (start_timer s) = state s"
  "rx_buf (start_timer s) = rx_buf s"
  "file_handle (start_timer s) = file_handle s"
  "filename (start_timer s) = filename s"
  "file_size (start_timer s) = file_size s"
  "bytes_transferred (start_timer s) = bytes_transferred s"
  "download_dir (start_timer s) = download_dir s"
  "si_retries (start_timer s) = si_retries s"
  "open_results (start_timer s) = open_results s"
  "write_results (start_timer s) = write_results s"
  "trace (start_timer s) = trace s"
  "timer (start_timer s) = True"
  by (simp_all add: start_timer_def)

lemma finish_frame [simp]:
  "cb (finish ok m s) = cb s"
  "rx_buf (finish ok m s) = rx_buf s"
  "filename (finish ok m s) = filename s"
  "file_size (finish ok m s) = file_size s"
  "bytes_transferred (finish ok m s) = bytes_transferred s"
  "download_dir (finish ok m s) = download_dir s"
  "si_retries (finish ok m s) = si_retries s"
  "open_results (finish ok m s) = open_results s"
  "write_results (finish ok m s) = write_results s"
  "timer (finish ok m s) = False"
  "file_handle (finish ok m s) = None"
  "state (finish ok m s) = (if ok then DONE else ERROR)"
  by (simp_all add: finish_def Let_def)

lemma send_si_frame [simp]:
  "cb (send_si s) = cb s"
  "state (send_si s) = state s"
  "rx_buf (send_si s) = rx_buf s"
  "file_handle (send_si s) = file_handle s"
  "filename (send_si s) = filename s"
  "file_size (send_si s) = file_size s"
  "bytes_transferred (send_si s) = bytes_transferred s"
  "download_dir (send_si s) = download_dir s"
  "si_retries (send_si s) = si_retries s"
  "open_results (send_si s) = open_results s"
  "write_results (send_si s) = write_results s"
  "timer (send_si s) = True"
  by (simp_all add: send_si_def)

lemma send_eof_frame [simp]:
  "cb (send_eof s) = cb s"
  "rx_buf (send_eof s) = rx_buf s"
  "file_handle (send_eof s) = file_handle s"
  "filename (send_eof s) = filename s"
  "file_size (send_eof s) = file_size s"
  "bytes_transferred (send_eof s) = bytes_transferred s"
  "download_dir (send_eof s) = download_dir s"
  "si_retries (send_eof s) = si_retries s"
  "open_results (send_eof s) = open_results s"
  "write_results (send_eof s) = write_results s"
  "timer (send_eof s) = True"
  "state (send_eof s) = S_EOF"
  by (simp_all add: send_eof_def)

lemma send_eot_frame [simp]:
  "cb (send_eot s) = cb s"
  "rx_buf (send_eot s) = rx_buf s"
  "file_handle (send_eot s) = file_handle s"
  "filename (send_eot s) = filename s"
  "file_size (send_eot s) = file_size s"
  "bytes_transferred (send_eot s) = bytes_transferred s"
  "download_dir (send_eot s) = download_dir s"
  "si_retries (send_eot s) = si_retries s"
  "open_results (send_eot s) = open_results s"
  "write_results (send_eot s) = write_results s"
  "timer (send_eot s) = True"
  "state (send_eot s) = S_EOT"
  by (simp_all add: send_eot_def)

lemma send_rr_frame [simp]:
  "cb (send_rr s) = cb s"
  "state (send_rr s) = state s"
  "rx_buf (send_rr s) = rx_buf s"
  "file_handle (send_rr s) = file_handle s"
  "filename (send_rr s) = filename s"
  "file_size (send_rr s) = file_size s"
  "bytes_transferred (send_rr s) = bytes_transferred s"
  "download_dir (send_rr s) = download_dir s"
  "timer (send_rr s) = timer s"
  "si_retries (send_rr s) = si_retries s"
  "open_results (send_rr s) = open_results s"
  "write_results (send_rr s) = write_results s"
  by (simp_all add: send_rr_def)

lemma send_rf_frame [simp]:
  "cb (send_rf s) = cb s"
  "state (send_rf s) = state s"
  "rx_buf (send_rf s) = rx_buf s"
  "file_handle (send_rf s) = file_handle s"
  "filename (send_rf s) = filename s"
  "file_size (send_rf s) = file_size s"
  "bytes_transferred (send_rf s) = bytes_transferred s"
  "download_dir (send_rf s) = download_dir s"
  "timer (send_rf s) = timer s"
  "si_retries (send_rf s) = si_retries s"
  "open_results (send_rf s) = open_results s"
  "write_results (send_rf s) = write_results s"
  by (simp_all add: send_rf_def)

lemma send_af_frame [simp]:
  "cb (send_af s) = cb s"
  "state (send_af s) = state s"
  "rx_buf (send_af s) = rx_buf s"
  "file_handle (send_af s) = file_handle s"
  "filename (send_af s) = filename s"
  "file_size (send_af s) = file_size s"
  "bytes_transferred (send_af s) = bytes_transferred s"
  "download_dir (send_af s) = download_dir s"
  "timer (send_af s) = timer s"
  "si_retries (send_af s) = si_retries s"
  "open_results (send_af s) = open_results s"
  "write_results (send_af s) = write_results s"
  by (simp_all add: send_af_def)

lemma send_at_frame [simp]:
  "cb (send_at s) = cb s"
  "state (send_at s) = state s"
  "rx_buf (send_at s) = rx_buf s"
  "file_handle (send_at s) = file_handle s"
  "filename (send_at s) = filename s"
  "file_size (send_at s) = file_size s"
  "bytes_transferred (send_at s) = bytes_transferred s"
  "download_dir (send_at s) = download_dir s"
  "timer (send_at s) = timer s"
  "si_retries (send_at s) = si_retries s"
  "open_results (send_at s) = open_results s"
  "write_results (send_at s) = write_results s"
  by (simp_all add: send_at_def)

lemma send_ca_frame [simp]:
  "cb (send_ca s) = cb s"
  "state (send_ca s) = state s"
  "rx_buf (send_ca s) = rx_buf s"
  "file_handle (send_ca s) = file_handle s"
  "filename (send_ca s) = filename s"
  "file_size (send_ca s) = file_size s"
  "bytes_transferred (send_ca s) = bytes_transferred s"
  "download_dir (send_ca s) = download_dir s"
  "timer (send_ca s) = timer s"
  "si_retries (send_ca s) = si_retries s"
  "open_results (send_ca s) = open_results s"
  "write_results (send_ca s) = write_results s"
  by (simp_all add: send_ca_def)

lemma send_nr_frame [simp]:
  "cb (snd (send_nr r s)) = cb s"
  "state (snd (send_nr r s)) = state s"
  "rx_buf (snd (send_nr r s)) = rx_buf s"
  "file_handle (snd (send_nr r s)) = file_handle s"
  "filename (snd (send_nr r s)) = filename s"
  "file_size (snd (send_nr r s)) = file_size s"
  "bytes_transferred (snd (send_nr r s)) = bytes_transferred s"
  "download_dir (snd (send_nr r s)) = download_dir s"
  "timer (snd (send_nr r s)) = timer s"
  "si_retries (snd (send_nr r s)) = si_retries s"
  "open_results (snd (send_nr r s)) = open_results s"
  "write_results (snd (send_nr r s)) = write_results s"
  "fst (send_nr r s) = (if length r < 256 then None else Some ValueError)"
  by (simp_all add: encode_ascii_def send_nr_def bytes2_def Let_def)

lemma send_cancel_frame [simp]:
  "cb (snd (send_cancel r s)) = cb s"
  "state (snd (send_cancel r s)) = state s"
  "rx_buf (snd (send_cancel r s)) = rx_buf s"
  "file_handle (snd (send_cancel r s)) = file_handle s"
  "filename (snd (send_cancel r s)) = filename s"
  "file_size (snd (send_cancel r s)) = file_size s"
  "bytes_transferred (snd (send_cancel r s)) = bytes_transferred s"
  "download_dir (snd (send_cancel r s)) = download_dir s"
  "timer (snd (send_cancel r s)) = timer s"
  "si_retries (snd (send_cancel r s)) = si_retries s"
  "open_results (snd (send_cancel r s)) = open_results s"
  "write_results (snd (send_cancel r s)) = write_results s"
  "fst (send_cancel r s) = (if length r < 256 then None else Some ValueError)"
  by (simp_all add: encode_ascii_def send_cancel_def bytes2_def Let_def)

lemma send_header_frame [simp]:
  "cb (snd (send_header s)) = cb s"
  "rx_buf (snd (send_header s)) = rx_buf s"
  "file_handle (snd (send_header s)) = file_handle s"
  "filename (snd (send_header s)) = filename s"
  "file_size (snd (send_header s)) = file_size s"
  "bytes_transferred (snd (send_header s)) = bytes_transferred s"
  "download_dir (snd (send_header s)) = download_dir s"
  "si_retries (snd (send_header s)) = si_retries s"
  "open_results (snd (send_header s)) = open_results s"
  "write_results (snd (send_header s)) = write_results s"
  by (simp_all add: send_header_def bytes2_def Let_def)

lemma and_then_simps [simp]:
  "fst (and_then r k) = fst r"
  "snd (and_then r k) = (if fst r = None then k (snd r) else snd r)"
  by (auto simp: and_then_def split: option.splits)

lemma lift_exn_simps [simp]:
  "snd (lift_exn r) = snd r"
  "fst (lift_exn r) = Inr b \<longleftrightarrow> b \<and> fst r = None"
  "fst (lift_exn r) = Inl e \<longleftrightarrow> fst r = Some e"
  by (auto simp: lift_exn_def split: option.splits)

lemma send_data_block_frame [simp]:
  "cb (snd (send_data_block s)) = cb s"
  "state (snd (send_data_block s)) = state s"
  "rx_buf (snd (send_data_block s)) = rx_buf s"
  "filename (snd (send_data_block s)) = filename s"
  "file_size (snd (send_data_block s)) = file_size s"
  "download_dir (snd (send_data_block s)) = download_dir s"
  "timer (snd (send_data_block s)) = timer s"
  "si_retries (snd (send_data_block s)) = si_retries s"
  "open_results (snd (send_data_block s)) = open_results s"
  "write_results (snd (send_data_block s)) = write_results s"
  by (simp_all add: send_data_block_def Let_def split: option.splits pyfile.splits)

lemma send_data_loop_preserves:
  assumes blk: "\<And>t. f (snd (send_data_block t)) = f t"
    and eof: "\<And>t. f (send_eof t) = f t"
    and em: "\<And>t. f (emit FileClose t) = f t"
    and fh: "\<And>t. f (t\<lparr>file_handle := None\<rparr>) = f t"
  shows "f (snd (send_data_loop s)) = f s"
proof (induction s rule: send_data_loop.induct)
  case (1 s)
  show ?case
  proof (cases "state s = S_DATA")
    case False
    then show ?thesis by (subst send_data_loop.simps) simp
  next
    case True
    obtain x s1 where r: "send_data_block s = (x, s1)" by (cases "send_data_block s")
    from blk [of s] r have s1: "f s1 = f s" by simp
    show ?thesis
    proof (cases x)
      case (Inl e)
      with True r s1 show ?thesis by (subst send_data_loop.simps) simp
    next
      case (Inr again)
      show ?thesis
      proof (cases again)
        case True
        have "f (snd (send_data_loop s1)) = f s1"
          by (rule "1.IH" [OF \<open>state s = S_DATA\<close> r [symmetric] Inr True])
        with \<open>state s = S_DATA\<close> r Inr True s1 show ?thesis
          by (subst send_data_loop.simps) simp
      next
        case False
        with \<open>state s = S_DATA\<close> r Inr s1 show ?thesis
          by (subst send_data_loop.simps) (simp add: eof em fh)
      qed
    qed
  qed
qed

lemma send_data_loop_frame [simp]:
  "cb (snd (send_data_loop s)) = cb s"
  "rx_buf (snd (send_data_loop s)) = rx_buf s"
  "filename (snd (send_data_loop s)) = filename s"
  "file_size (snd (send_data_loop s)) = file_size s"
  "download_dir (snd (send_data_loop s)) = download_dir s"
  "si_retries (snd (send_data_loop s)) = si_retries s"
  "open_results (snd (send_data_loop s)) = open_results s"
  "write_results (snd (send_data_loop s)) = write_results s"
  by (rule send_data_loop_preserves; simp)+

lemma parse_header_frame [simp]:
  "cb (snd (parse_header p s)) = cb s"
  "rx_buf (snd (parse_header p s)) = rx_buf s"
  "download_dir (snd (parse_header p s)) = download_dir s"
  "si_retries (snd (parse_header p s)) = si_retries s"
  "write_results (snd (parse_header p s)) = write_results s"
  by (simp_all add: parse_header_def Let_def split: option.splits)

lemma file_write_frame [simp]:
  "cb (snd (file_write f d s)) = cb s"
  "state (snd (file_write f d s)) = state s"
  "rx_buf (snd (file_write f d s)) = rx_buf s"
  "file_handle (snd (file_write f d s)) = file_handle s"
  "filename (snd (file_write f d s)) = filename s"
  "file_size (snd (file_write f d s)) = file_size s"
  "bytes_transferred (snd (file_write f d s)) = bytes_transferred s"
  "download_dir (snd (file_write f d s)) = download_dir s"
  "timer (snd (file_write f d s)) = timer s"
  "si_retries (snd (file_write f d s)) = si_retries s"
  "open_results (snd (file_write f d s)) = open_results s"
  by (simp_all add: file_write_def split: pyfile.splits option.splits)


subsection \<open>The receive loop terminates\<close>

lemma process_sender_response_rx_buf:
  "rx_buf (snd (process_sender_response a b s)) =
     (if a = ACK then drop 2 (rx_buf s)
      else if a = NAK then
        (if length (rx_buf s) < 2 + unat b then rx_buf s else drop (2 + unat b) (rx_buf s))
      else drop 1 (rx_buf s))"
proof (cases "a = ACK")
  case True
  then show ?thesis by (simp add: process_sender_response_def Let_def)
next
  case False
  then show ?thesis
    by (cases "a = NAK") (simp_all add: process_sender_response_def Let_def split: option.splits)
qed

lemma process_sender_response_need_more:
  "fst (process_sender_response a b s) = Inr False \<longleftrightarrow> a = NAK \<and> length (rx_buf s) < 2 + unat b"
proof (cases "a = ACK")
  case True
  then show ?thesis by (simp add: process_sender_response_def Let_def ctrl_defs)
next
  case False
  then show ?thesis
    by (cases "a = NAK") (simp_all add: process_sender_response_def Let_def split: option.splits)
qed

lemma process_receiver_control_rx_buf:
  "rx_buf (snd (process_receiver_control a b s)) =
     (if a = ENQ \<and> b = 1 then drop 2 (rx_buf s)
      else if a = SOH then
        (if length (rx_buf s) < 2 + unat b then rx_buf s else drop (2 + unat b) (rx_buf s))
      else if a = EOT \<and> b = 1 then drop 2 (rx_buf s)
      else drop 1 (rx_buf s))"
  by (simp add: process_receiver_control_def Let_def)

lemma process_receiver_control_need_more:
  "fst (process_receiver_control a b s) = Inr False \<longleftrightarrow> a = SOH \<and> length (rx_buf s) < 2 + unat b"
  by (auto simp: process_receiver_control_def Let_def ctrl_defs)

lemma process_receiver_data_rx_buf:
  "rx_buf (snd (process_receiver_data a b s)) =
     (if a = STX then
        (if length (rx_buf s) < 2 + (if b \<noteq> 0 then unat b else 256) then rx_buf s
         else drop (2 + (if b \<noteq> 0 then unat b else 256)) (rx_buf s))
      else if (a = ETX \<or> a = EOT) \<and> b = 1 then drop 2 (rx_buf s)
      else if a = CAN then
        (if length (rx_buf s) < 2 + unat b then rx_buf s else drop (2 + unat b) (rx_buf s))
      else drop 1 (rx_buf s))"
  by (simp add: process_receiver_data_def Let_def ctrl_defs split: option.splits)

lemma process_receiver_data_need_more:
  "fst (process_receiver_data a b s) = Inr False \<longleftrightarrow>
     (a = STX \<and> length (rx_buf s) < 2 + (if b \<noteq> 0 then unat b else 256)) \<or>
     (a = CAN \<and> length (rx_buf s) < 2 + unat b)"
  by (auto simp: process_receiver_data_def Let_def ctrl_defs split: option.splits)

lemma process_sender_data_interrupt_rx_buf:
  "rx_buf (snd (process_sender_data_interrupt a b s)) =
     (if a = DLE then
        (if length (rx_buf s) < 2 + unat b then rx_buf s else drop (2 + unat b) (rx_buf s))
      else [])"
  by (simp add: process_sender_data_interrupt_def Let_def)

lemma process_sender_data_interrupt_need_more:
  "fst (process_sender_data_interrupt a b s) = Inr False \<longleftrightarrow>
     a = DLE \<and> length (rx_buf s) < 2 + unat b"
  by (auto simp: process_sender_data_interrupt_def Let_def)

lemma loop_body_shrinks:
  assumes "2 \<le> length (rx_buf s)" and "fst (loop_body s) = Inr True"
  shows "length (rx_buf (snd (loop_body s))) < length (rx_buf s)"
proof -
  let ?a = "rx_buf s ! 0" and ?b = "rx_buf s ! 1"
  from assms(2) have nc: "?a \<noteq> CAN"
    by (auto simp: loop_body_def Let_def split: if_splits)
  consider "state s \<in> {S_INIT, S_HEADER, S_EOF, S_EOT}" | "state s \<in> {R_WAIT, R_HEADER}"
    | "state s = R_DATA" | "state s = S_DATA"
    | "state s \<in> {IDLE, DONE, ERROR, CW_WAIT}"
    by (cases "state s") auto
  then show ?thesis
  proof cases
    case 1
    with nc have eq: "loop_body s = process_sender_response ?a ?b s"
      by (simp add: loop_body_def Let_def)
    with assms(2) have "fst (process_sender_response ?a ?b s) \<noteq> Inr False" by simp
    then have "\<not> (?a = NAK \<and> length (rx_buf s) < 2 + unat ?b)"
      unfolding process_sender_response_need_more .
    with assms(1) show ?thesis
      unfolding eq process_sender_response_rx_buf by auto
  next
    case 2
    with nc have eq: "loop_body s = process_receiver_control ?a ?b s"
      by (auto simp: loop_body_def Let_def)
    with assms(2) have "fst (process_receiver_control ?a ?b s) \<noteq> Inr False" by simp
    then have "\<not> (?a = SOH \<and> length (rx_buf s) < 2 + unat ?b)"
      unfolding process_receiver_control_need_more .
    with assms(1) show ?thesis
      unfolding eq process_receiver_control_rx_buf by auto
  next
    case 3
    with nc have eq: "loop_body s = process_receiver_data ?a ?b s"
      by (simp add: loop_body_def Let_def)
    with assms(2) have "fst (process_receiver_data ?a ?b s) \<noteq> Inr False" by simp
    then have "\<not> ((?a = STX \<and> length (rx_buf s) < 2 + (if ?b \<noteq> 0 then unat ?b else 256)) \<or>
        (?a = CAN \<and> length (rx_buf s) < 2 + unat ?b))"
      unfolding process_receiver_data_need_more .
    with assms(1) show ?thesis
      unfolding eq process_receiver_data_rx_buf by (auto split: if_splits)
  next
    case 4
    with nc have eq: "loop_body s = process_sender_data_interrupt ?a ?b s"
      by (simp add: loop_body_def Let_def)
    with assms(2) have "fst (process_sender_data_interrupt ?a ?b s) \<noteq> Inr False" by simp
    then have "\<not> (?a = DLE \<and> length (rx_buf s) < 2 + unat ?b)"
      unfolding process_sender_data_interrupt_need_more .
    with assms(1) show ?thesis
      unfolding eq process_sender_data_interrupt_rx_buf by auto
  next
    case 5
    with nc have "loop_body s = (Inr False, s\<lparr>rx_buf := []\<rparr>)"
      by (auto simp: loop_body_def Let_def)
    with assms(2) show ?thesis by simp
  qed
qed

termination process_buffer
proof (relation "measure (\<lambda>s. length (rx_buf s))")
  show "wf (measure (\<lambda>s. length (rx_buf s)))" by simp
next
  fix s :: yapp and x y again
  assume "2 \<le> length (rx_buf s)" "(x, y) = loop_body s" "x = Inr again" "again"
  then have "loop_body s = (Inr True, y)" by simp
  then have "fst (loop_body s) = Inr True" "snd (loop_body s) = y" by simp_all
  with loop_body_shrinks [of s] \<open>2 \<le> length (rx_buf s)\<close>
  show "(y, s) \<in> measure (\<lambda>s. length (rx_buf s))" by simp
qed

declare process_buffer.simps [simp del]

subsection \<open>Starting, cancelling and passing through\<close>

lemma finish_trace:
  "trace (finish ok m s) =
     trace s @ (if file_handle s \<noteq> None then [FileClose] else [])
       @ (if on_event (cb s) then [Log (if ok then SUCCESS else ERROR_EVENT) m] else [])
       @ (if on_finished (cb s) then [Finished ok m] else [])"
  by (simp add: finish_def Let_def cancel_timer_def log_def emit_def)

lemma send_si_trace:
  "trace (send_si s) =
     trace s @ (if send_raw (cb s) then [Send [ENQ, 0x01]] else [])
       @ (if on_event (cb s) then [Log SENT (lit ''SI (Send Init)'')] else [])"
  by (simp add: send_si_def)

lemma send_cancel_trace:
  "trace (snd (send_cancel r s)) =
     trace s @ (if length r < 256
                then (if send_raw (cb s) then [Send ([CAN, of_nat (length r)] @ encode_ascii r)] else [])
                  @ (if on_event (cb s) then [Log SENT (lit ''CN (Cancel) '' @ r)] else [])
                else [])"
  by (simp add: send_cancel_def bytes2_def Let_def encode_ascii_def)

lemma send_nr_trace:
  "trace (snd (send_nr r s)) =
     trace s @ (if length r < 256
                then (if send_raw (cb s) then [Send ([NAK, of_nat (length r)] @ encode_ascii r)] else [])
                  @ (if on_event (cb s) then [Log SENT (lit ''NR (Not Ready) '' @ r)] else [])
                else [])"
  by (simp add: send_nr_def bytes2_def Let_def encode_ascii_def)

lemma length_lit [simp]: "length (lit s) = length s"
  by (simp add: lit_def)

lemma sending_example_state: "state sending_example = S_INIT"
  by (simp add: sending_example_def start_send_def init_def Let_def)

text \<open>
  Claim C6. In every state other than \<open>IDLE\<close>, \<open>start_send\<close> and \<open>start_receive\<close> return
  \<open>False\<close> with the message "Transfer already in progress" and leave every field of the
  session as it was.
\<close>

theorem second_transfer_rejected:
  "state s \<noteq> IDLE \<Longrightarrow>
     start_send filepath found s = ((False, lit ''Transfer already in progress''), s) \<and>
     start_receive dir dir_ok s = (Inr (False, lit ''Transfer already in progress''), s)"
  by (simp add: start_send_def start_receive_def)

theorem second_transfer_rejected_witness:
  "state sending_example \<noteq> IDLE \<and>
   start_send (lit ''/tmp/b.txt'') (Present 1 [0x44]) sending_example
     = ((False, lit ''Transfer already in progress''), sending_example) \<and>
   start_receive (lit ''/tmp/in'') True sending_example
     = (Inr (False, lit ''Transfer already in progress''), sending_example)"
  using second_transfer_rejected [of sending_example "lit ''/tmp/b.txt''" "Present 1 [0x44]" "lit ''/tmp/in''" True]
  by (simp add: sending_example_state)

lemma cancel_raises_nothing: "fst (cancel s) = None"
  by (simp add: cancel_def)

lemma cancel_state: "state (snd (cancel s)) \<in> {IDLE, DONE, ERROR}"
  by (simp add: cancel_def)

text \<open>
  Claim C9. \<open>cancel\<close> is idempotent: a second call in a row returns the state the first one
  left, with nothing sent and no callback fired; on an \<open>IDLE\<close>, \<open>DONE\<close> or \<open>ERROR\<close> engine
  it changes nothing.
\<close>

theorem cancel_idempotent:
  "cancel (snd (cancel s)) = cancel s \<and>
   (state s \<in> {IDLE, DONE, ERROR} \<longrightarrow> cancel s = (None, s))"
proof -
  have a: "cancel (snd (cancel s)) = (None, snd (cancel s))"
    using cancel_state [of s] by (subst cancel_def) simp
  have b: "cancel s = (None, snd (cancel s))"
    using cancel_raises_nothing [of s] by (cases "cancel s") simp
  have c: "state s \<in> {IDLE, DONE, ERROR} \<longrightarrow> cancel s = (None, s)"
    by (simp add: cancel_def)
  from a b c show ?thesis by simp
qed

theorem cancel_idempotent_witness:
  "cancel (snd (cancel sending_example)) = cancel sending_example \<and>
   state (snd (cancel sending_example)) = ERROR \<and>
   cancel (snd (cancel sending_example)) = (None, snd (cancel sending_example))"
  using cancel_idempotent [of sending_example] cancel_idempotent [of "snd (cancel sending_example)"]
  by (simp add: cancel_def sending_example_state)

text \<open>
  Claim C10. In the \<open>IDLE\<close> state \<open>process_data\<close> hands the bytes unchanged to \<open>on_rx_data\<close>
  (when that callback was given) and leaves the session as it was: nothing is buffered,
  decoded or sent, and the state does not change.
\<close>

theorem idle_passthrough:
  "state s = IDLE \<Longrightarrow>
     process_data data s =
       (None, if on_rx_data (cb s) then s\<lparr>trace := trace s @ [RxData data]\<rparr> else s)"
  by (simp add: process_data_def emit_def)

theorem idle_passthrough_witness:
  "state (init all_callbacks [] []) = IDLE \<and>
   process_data [0x48, 0x69] (init all_callbacks [] []) =
     (None, (init all_callbacks [] [])\<lparr>trace := [RxData [0x48, 0x69]]\<rparr>)"
  using idle_passthrough [of "init all_callbacks [] []" "[0x48, 0x69]"]
  by (simp add: init_def all_callbacks_def)

subsection \<open>The retry bound of SendInit\<close>

lemma timeouts_simps [simp]:
  "timeouts 0 s = s"
  "timeouts (Suc n) s = snd (on_timeout (timeouts n s))"
  by (simp_all add: timeouts_def)

lemma on_timeout_retry:
  assumes "state s = S_INIT" and "si_retries s < 5"
  shows "state (snd (on_timeout s)) = S_INIT"
    and "si_retries (snd (on_timeout s)) = si_retries s + 1"
    and "si_sent (snd (on_timeout s)) = si_sent s + (if send_raw (cb s) then 1 else 0)"
    and "cb (snd (on_timeout s)) = cb s"
    and "fst (on_timeout s) = None"
  using assms
  by (simp_all add: on_timeout_def MAX_SI_RETRIES_def Let_def si_sent_def send_si_trace)

lemma on_timeout_fatal:
  assumes "state s \<noteq> IDLE" and "\<not> (state s = S_INIT \<and> si_retries s < 5)"
  shows "state (snd (on_timeout s)) = ERROR"
    and "si_retries (snd (on_timeout s)) = si_retries s"
    and "si_sent (snd (on_timeout s)) = si_sent s"
    and "cb (snd (on_timeout s)) = cb s"
    and "fst (on_timeout s) = None"
  using assms
  by (auto simp: on_timeout_def MAX_SI_RETRIES_def si_sent_def finish_trace send_cancel_trace
        ctrl_defs)

lemma on_timeout_idle: "state s = IDLE \<Longrightarrow> on_timeout s = (None, s)"
  by (simp add: on_timeout_def)

lemma start_send_present:
  assumes "state s0 = IDLE"
  shows "state (snd (start_send p (Present n c) s0)) = S_INIT"
    and "si_retries (snd (start_send p (Present n c) s0)) = 0"
    and "si_sent (snd (start_send p (Present n c) s0)) = si_sent s0 + (if send_raw (cb s0) then 1 else 0)"
    and "cb (snd (start_send p (Present n c) s0)) = cb s0"
    and "fst (start_send p (Present n c) s0) = (True, lit ''Sending '' @ basename p)"
  using assms by (simp_all add: start_send_def Let_def si_sent_def send_si_trace)

lemma timeouts_retrying:
  assumes "state s = S_INIT" and "si_retries s = 0" and "k \<le> 5"
  shows "state (timeouts k s) = S_INIT \<and> si_retries (timeouts k s) = int k \<and>
         si_sent (timeouts k s) = si_sent s + (if send_raw (cb s) then k else 0) \<and>
         cb (timeouts k s) = cb s"
  using assms(3)
proof (induction k)
  case 0
  with assms show ?case by simp
next
  case (Suc k)
  then have ih: "state (timeouts k s) = S_INIT" "si_retries (timeouts k s) = int k"
    "si_sent (timeouts k s) = si_sent s + (if send_raw (cb s) then k else 0)"
    "cb (timeouts k s) = cb s" and "int k < 5"
    by simp_all
  then show ?case
    using on_timeout_retry [of "timeouts k s"] by simp
qed

lemma timeouts_failed:
  assumes "state s = S_INIT" and "si_retries s = 0"
  shows "state (timeouts (6 + n) s) = ERROR \<and> si_retries (timeouts (6 + n) s) = 5 \<and>
         si_sent (timeouts (6 + n) s) = si_sent s + (if send_raw (cb s) then 5 else 0) \<and>
         cb (timeouts (6 + n) s) = cb s"
proof (induction n)
  case 0
  have five: "state (timeouts 5 s) = S_INIT" "si_retries (timeouts 5 s) = 5"
    "si_sent (timeouts 5 s) = si_sent s + (if send_raw (cb s) then 5 else 0)"
    "cb (timeouts 5 s) = cb s"
    using timeouts_retrying [OF assms, of 5] by simp_all
  have "timeouts 6 s = snd (on_timeout (timeouts 5 s))"
    by (simp add: eval_nat_numeral)
  with five on_timeout_fatal [of "timeouts 5 s"] show ?case by simp
next
  case (Suc n)
  have "6 + Suc n = Suc (6 + n)" by simp
  then have "timeouts (6 + Suc n) s = snd (on_timeout (timeouts (6 + n) s))"
    by (simp only: timeouts_simps)
  with Suc on_timeout_fatal [of "timeouts (6 + n) s"] show ?case
    by (simp del: timeouts_simps)
qed

text \<open>
  Claim C4. After \<open>start_send\<close>, with no bytes arriving, each of the first five timeouts
  resends SendInit and leaves the machine in \<open>S_INIT\<close>; the sixth timeout puts it in
  \<open>ERROR\<close>; however many timeouts follow, SendInit was resent five times and no more; and
  a timeout in a state other than \<open>S_INIT\<close> resends nothing and does not touch the retry
  counter.
\<close>

theorem send_init_retry_bound:
  "state s0 = IDLE \<longrightarrow>
     (let s1 = snd (start_send filepath (Present fsize content) s0) in
      (\<forall>k\<le>5. state (timeouts k s1) = S_INIT \<and> si_retries (timeouts k s1) = int k) \<and>
      state (timeouts 6 s1) = ERROR \<and>
      (\<forall>n. si_sent (timeouts n s1) = si_sent s1 + (if send_raw (cb s0) then min n 5 else 0)) \<and>
      (\<forall>n. fst (on_timeout (timeouts n s1)) = None)) \<and>
   (state s \<noteq> S_INIT \<longrightarrow>
      si_sent (snd (on_timeout s)) = si_sent s \<and>
      si_retries (snd (on_timeout s)) = si_retries s \<and>
      state (snd (on_timeout s)) = (if state s = IDLE then IDLE else ERROR))"
proof -
  have other: "si_sent (snd (on_timeout s)) = si_sent s \<and>
      si_retries (snd (on_timeout s)) = si_retries s \<and>
      state (snd (on_timeout s)) = (if state s = IDLE then IDLE else ERROR)"
    if "state s \<noteq> S_INIT"
    using that on_timeout_fatal [of s] on_timeout_idle [of s] by (cases "state s = IDLE") simp_all
  have main: "(\<forall>k\<le>5. state (timeouts k s1) = S_INIT \<and> si_retries (timeouts k s1) = int k) \<and>
      state (timeouts 6 s1) = ERROR \<and>
      (\<forall>n. si_sent (timeouts n s1) = si_sent s1 + (if send_raw (cb s0) then min n 5 else 0)) \<and>
      (\<forall>n. fst (on_timeout (timeouts n s1)) = None)"
    if idle: "state s0 = IDLE" and s1: "s1 = snd (start_send filepath (Present fsize content) s0)"
    for s1
  proof -
    from idle s1 have init: "state s1 = S_INIT" "si_retries s1 = 0" and cb1: "cb s1 = cb s0"
      using start_send_present [OF idle, of filepath fsize content] by simp_all
    have early: "state (timeouts k s1) = S_INIT \<and> si_retries (timeouts k s1) = int k \<and>
         si_sent (timeouts k s1) = si_sent s1 + (if send_raw (cb s1) then k else 0)"
      if "k \<le> 5" for k
      using timeouts_retrying [OF init that] by simp
    have late: "state (timeouts n s1) = ERROR \<and> si_retries (timeouts n s1) = 5 \<and>
         si_sent (timeouts n s1) = si_sent s1 + (if send_raw (cb s1) then 5 else 0)"
      if "6 \<le> n" for n
    proof -
      from that obtain m where "n = 6 + m" using le_Suc_ex by blast
      with timeouts_failed [OF init, of m] show ?thesis by simp
    qed
    have sent: "si_sent (timeouts n s1) = si_sent s1 + (if send_raw (cb s0) then min n 5 else 0)"
      for n
    proof (cases "n \<le> 5")
      case True
      with early [of n] cb1 show ?thesis by (simp add: min_def)
    next
      case False
      then have "6 \<le> n" by simp
      with late [of n] cb1 show ?thesis by (simp add: min_def)
    qed
    have quiet: "fst (on_timeout (timeouts n s1)) = None" for n
    proof (cases "n \<le> 5")
      case True
      note st = early [OF True]
      show ?thesis
      proof (cases "n = 5")
        case True
        with st on_timeout_fatal(5) [of "timeouts n s1"] show ?thesis by simp
      next
        case False
        with True st on_timeout_retry(5) [of "timeouts n s1"] show ?thesis by simp
      qed
    next
      case False
      then have "6 \<le> n" by simp
      with late [of n] on_timeout_fatal(5) [of "timeouts n s1"] show ?thesis by simp
    qed
    from early late [of 6] sent quiet show ?thesis by simp
  qed
  from main other show ?thesis by (simp add: Let_def)
qed

theorem send_init_retry_bound_witness:
  "state (init all_callbacks [] []) = IDLE \<and>
   state (timeouts 5 sending_example) = S_INIT \<and>
   si_retries (timeouts 5 sending_example) = 5 \<and>
   state (timeouts 6 sending_example) = ERROR \<and>
   si_sent (timeouts 9 sending_example) = si_sent sending_example + 5 \<and>
   state (snd (cancel sending_example)) \<noteq> S_INIT \<and>
   si_sent (snd (on_timeout (snd (cancel sending_example)))) = si_sent (snd (cancel sending_example))"
  using send_init_retry_bound [of "init all_callbacks [] []" "lit ''/tmp/a.txt''" 3 "[0x41, 0x42, 0x43]"
      "snd (cancel sending_example)"]
  by (simp add: sending_example_def [symmetric] Let_def cancel_def sending_example_state)
     (simp add: init_def all_callbacks_def)

subsection \<open>Data packets and incomplete packets\<close>

lemma process_buffer_short: "length (rx_buf s) < 2 \<Longrightarrow> process_buffer s = (None, s)"
  by (subst process_buffer.simps) simp

lemma process_buffer_stop:
  "2 \<le> length (rx_buf s) \<Longrightarrow> fst (loop_body s) = Inr False \<Longrightarrow>
     process_buffer s = (None, snd (loop_body s))"
  by (subst process_buffer.simps) (auto split: prod.splits)

lemma process_buffer_again:
  "2 \<le> length (rx_buf s) \<Longrightarrow> fst (loop_body s) = Inr True \<Longrightarrow>
     process_buffer s = process_buffer (snd (loop_body s))"
  by (subst process_buffer.simps) (auto split: prod.splits)

lemma process_buffer_raise:
  "2 \<le> length (rx_buf s) \<Longrightarrow> fst (loop_body s) = Inl e \<Longrightarrow>
     process_buffer s = (Some e, snd (loop_body s))"
  by (subst process_buffer.simps) (auto split: prod.splits)

text \<open>
  Claim C5. In \<open>R_DATA\<close>, a Data packet whose length byte is 0 carries 256 payload bytes: with
  fewer than 2 + 256 bytes buffered the decoder waits and changes nothing; with them
  buffered (the file open for writing, the write succeeding) one decode step consumes 258
  bytes, writes the 256 payload bytes to the file and adds 256 to \<open>bytes_transferred\<close>.
\<close>

theorem data_length_zero_means_256:
  assumes "state s = R_DATA" and "rx_buf s = STX # 0 # rest"
  shows "(length rest < 256 \<longrightarrow> loop_body s = (Inr False, s) \<and> process_buffer s = (None, s)) \<and>
         (256 \<le> length rest \<and> file_handle s = Some (Writer p) \<and>
            next_result (write_results s) = None \<longrightarrow>
          fst (loop_body s) = Inr True \<and>
          rx_buf (snd (loop_body s)) = drop 256 rest \<and>
          length (rx_buf (snd (loop_body s))) = length (rx_buf s) - 258 \<and>
          bytes_transferred (snd (loop_body s)) = bytes_transferred s + 256 \<and>
          trace (snd (loop_body s)) =
            trace s @ [FileWrite (take 256 rest)]
              @ (if on_progress (cb s)
                 then [Progress (bytes_transferred s + 256) (file_size s)] else []) \<and>
          state (snd (loop_body s)) = R_DATA \<and>
          file_handle (snd (loop_body s)) = Some (Writer p))"
proof -
  from assms have body: "loop_body s = process_receiver_data STX 0 s"
    by (simp add: loop_body_def Let_def ctrl_defs)
  have wait: "loop_body s = (Inr False, s) \<and> process_buffer s = (None, s)" if "length rest < 256"
  proof -
    from that assms have lb: "loop_body s = (Inr False, s)"
      by (simp add: body process_receiver_data_def)
    with process_buffer_stop [of s] assms show ?thesis by simp
  qed
  have take: "fst (loop_body s) = Inr True \<and>
          rx_buf (snd (loop_body s)) = drop 256 rest \<and>
          length (rx_buf (snd (loop_body s))) = length (rx_buf s) - 258 \<and>
          bytes_transferred (snd (loop_body s)) = bytes_transferred s + 256 \<and>
          trace (snd (loop_body s)) =
            trace s @ [FileWrite (take 256 rest)]
              @ (if on_progress (cb s)
                 then [Progress (bytes_transferred s + 256) (file_size s)] else []) \<and>
          state (snd (loop_body s)) = R_DATA \<and>
          file_handle (snd (loop_body s)) = Some (Writer p)"
    if "256 \<le> length rest" "file_handle s = Some (Writer p)" "next_result (write_results s) = None"
    using that assms
    by (simp add: body process_receiver_data_def Let_def file_write_def)
  from wait take show ?thesis by blast
qed

theorem data_length_zero_means_256_witness:
  "state (receiving_example\<lparr>rx_buf := STX # 0 # replicate 256 0x41 @ [ETX]\<rparr>) = R_DATA \<and>
   fst (loop_body (receiving_example\<lparr>rx_buf := STX # 0 # replicate 256 0x41 @ [ETX]\<rparr>)) = Inr True \<and>
   rx_buf (snd (loop_body (receiving_example\<lparr>rx_buf := STX # 0 # replicate 256 0x41 @ [ETX]\<rparr>))) = [ETX] \<and>
   bytes_transferred (snd (loop_body (receiving_example\<lparr>rx_buf := STX # 0 # replicate 256 0x41 @ [ETX]\<rparr>))) = 256 \<and>
   process_buffer (receiving_example\<lparr>rx_buf := [STX, 0, 0x41]\<rparr>)
     = (None, receiving_example\<lparr>rx_buf := [STX, 0, 0x41]\<rparr>)"
  using data_length_zero_means_256 [of "receiving_example\<lparr>rx_buf := STX # 0 # replicate 256 0x41 @ [ETX]\<rparr>"
      "replicate 256 0x41 @ [ETX]" "lit ''/tmp/in/f''"]
    data_length_zero_means_256 [of "receiving_example\<lparr>rx_buf := [STX, 0, 0x41]\<rparr>" "[0x41]" "lit ''/tmp/in/f''"]
  by (simp add: receiving_example_def next_result_def)

lemma cancel_timer_idem [simp]: "cancel_timer (cancel_timer s) = cancel_timer s"
  by (simp add: cancel_timer_def)

lemma cancel_timer_rx_buf_update:
  "(cancel_timer s)\<lparr>rx_buf := x\<rparr> = cancel_timer (s\<lparr>rx_buf := x\<rparr>)"
  by (simp add: cancel_timer_def)

lemma process_sender_response_cancel_timer:
  "process_sender_response a b (cancel_timer s) = process_sender_response a b s"
  by (simp only: process_sender_response_def [of a b s]
        process_sender_response_def [of a b "cancel_timer s"] cancel_timer_idem)

lemma process_receiver_control_cancel_timer:
  "process_receiver_control a b (cancel_timer s) = process_receiver_control a b s"
  by (simp only: process_receiver_control_def [of a b s]
        process_receiver_control_def [of a b "cancel_timer s"] cancel_timer_idem)

lemma loop_body_cancel_timer:
  assumes "state s \<in> {S_INIT, S_HEADER, S_EOF, S_EOT, R_WAIT, R_HEADER}" and "rx_buf s ! 0 \<noteq> CAN"
  shows "loop_body (cancel_timer s) = loop_body s"
  using assms
  by (auto simp: loop_body_def Let_def process_sender_response_cancel_timer
        process_receiver_control_cancel_timer)

lemma process_buffer_cancel_timer:
  assumes "state s \<in> {S_INIT, S_HEADER, S_EOF, S_EOT, R_WAIT, R_HEADER}" and "rx_buf s ! 0 \<noteq> CAN"
    and "2 \<le> length (rx_buf s)"
  shows "process_buffer (cancel_timer s) = process_buffer s"
  using assms(3)
  by (simp add: process_buffer.simps [of "cancel_timer s"] process_buffer.simps [of s]
        loop_body_cancel_timer [OF assms(1,2)])

lemma receiving_example_state: "state receiving_example = R_DATA"
  by (simp add: receiving_example_def)

text \<open>
  Claim C8 as stated fails: which classes a decode step knows depends on the state, and a
  class byte that the handler of the state does not know is an unexpected byte, dropped
  at once. A sender in \<open>S_INIT\<close> that has the header of a Text packet of 3 bytes and one
  payload byte buffered does not wait: it consumes the two header bytes one after the
  other and keeps the payload byte. A receiver in \<open>R_DATA\<close> does the same to the header
  of a Header packet of 5 bytes.
\<close>

theorem incomplete_packet_counterexample:
  "state sending_example = S_INIT \<and> rx_buf sending_example = [] \<and>
   fst (process_data [DLE, 3, 0x41] sending_example) = None \<and>
   rx_buf (snd (process_data [DLE, 3, 0x41] sending_example)) = [0x41] \<and>
   state receiving_example = R_DATA \<and> rx_buf receiving_example = [] \<and>
   fst (process_data [SOH, 5, 0x61] receiving_example) = None \<and>
   rx_buf (snd (process_data [SOH, 5, 0x61] receiving_example)) = [0x61]"
  by code_simp

text \<open>
  Claim C8, as amended. For each length-prefixed class, in the states whose handler decodes
  it (Cancel in every state but \<open>IDLE\<close>, Header in \<open>R_WAIT\<close> and \<open>R_HEADER\<close>, Data in \<open>R_DATA\<close>,
  NotReady/Resume in \<open>S_INIT\<close>, \<open>S_HEADER\<close>, \<open>S_EOF\<close> and \<open>S_EOT\<close>, Text in \<open>S_DATA\<close>): when the
  two header bytes are buffered but not all of the declared payload, the decode step
  reports that it needs more data, raises nothing and consumes nothing. The session is as
  before (but for the crash timer, which the two control handlers cancel on entry), the
  buffer is identical, and delivering further bytes afterwards gives exactly what decoding
  with all of them buffered at once gives.
\<close>

theorem need_more_data_keeps_buffer:
  assumes "2 \<le> length (rx_buf s)" and "a = rx_buf s ! 0" and "b = rx_buf s ! 1"
    and "(a = CAN \<and> state s \<noteq> IDLE \<and> length (rx_buf s) < 2 + unat b) \<or>
         (a = SOH \<and> state s \<in> {R_WAIT, R_HEADER} \<and> length (rx_buf s) < 2 + unat b) \<or>
         (a = STX \<and> state s = R_DATA \<and>
            length (rx_buf s) < 2 + (if b \<noteq> 0 then unat b else 256)) \<or>
         (a = NAK \<and> state s \<in> {S_INIT, S_HEADER, S_EOF, S_EOT} \<and>
            length (rx_buf s) < 2 + unat b) \<or>
         (a = DLE \<and> state s = S_DATA \<and> length (rx_buf s) < 2 + unat b)"
  shows "loop_body s = (Inr False, if a = SOH \<or> a = NAK then cancel_timer s else s) \<and>
         process_buffer s = (None, snd (loop_body s)) \<and>
         rx_buf (snd (process_buffer s)) = rx_buf s \<and>
         (\<forall>more. process_data more (snd (process_buffer s))
                   = process_buffer (s\<lparr>rx_buf := rx_buf s @ more\<rparr>))"
proof -
  have body: "loop_body s = (Inr False, if a = SOH \<or> a = NAK then cancel_timer s else s)"
    using assms(4) assms(2,3)
    by (elim disjE)
       (auto simp: loop_body_def Let_def ctrl_defs process_receiver_control_def
          process_receiver_data_def process_sender_response_def
          process_sender_data_interrupt_def)
  with process_buffer_stop [OF assms(1)]
  have pb: "process_buffer s = (None, if a = SOH \<or> a = NAK then cancel_timer s else s)"
    by simp
  have idle: "state s \<noteq> IDLE" using assms(4) by auto
  have later: "process_data more (snd (process_buffer s))
                 = process_buffer (s\<lparr>rx_buf := rx_buf s @ more\<rparr>)" for more
  proof (cases "a = SOH \<or> a = NAK")
    case False
    with pb idle show ?thesis by (simp add: process_data_def)
  next
    case True
    let ?t = "s\<lparr>rx_buf := rx_buf s @ more\<rparr>"
    from True assms(4) have st: "state ?t \<in> {S_INIT, S_HEADER, S_EOF, S_EOT, R_WAIT, R_HEADER}"
      by (auto simp: ctrl_defs)
    from True assms(1,2) have nc: "rx_buf ?t ! 0 \<noteq> CAN"
      by (auto simp: nth_append ctrl_defs)
    from True pb idle have "process_data more (snd (process_buffer s))
        = process_buffer ((cancel_timer s)\<lparr>rx_buf := rx_buf s @ more\<rparr>)"
      by (simp add: process_data_def)
    also have "\<dots> = process_buffer (cancel_timer ?t)"
      by (simp only: cancel_timer_rx_buf_update)
    also have "\<dots> = process_buffer ?t"
      by (rule process_buffer_cancel_timer [OF st nc]) (use assms(1) in simp)
    finally show ?thesis .
  qed
  from body pb later show ?thesis by auto
qed

theorem need_more_data_keeps_buffer_witness:
  "2 \<le> length (rx_buf (receiving_example\<lparr>rx_buf := [STX, 3, 0x41]\<rparr>)) \<and>
   state (receiving_example\<lparr>rx_buf := [STX, 3, 0x41]\<rparr>) = R_DATA \<and>
   process_buffer (receiving_example\<lparr>rx_buf := [STX, 3, 0x41]\<rparr>)
     = (None, receiving_example\<lparr>rx_buf := [STX, 3, 0x41]\<rparr>) \<and>
   process_data [0x42, 0x43] (receiving_example\<lparr>rx_buf := [STX, 3, 0x41]\<rparr>)
     = process_buffer (receiving_example\<lparr>rx_buf := [STX, 3, 0x41, 0x42, 0x43]\<rparr>)"
proof -
  let ?s = "receiving_example\<lparr>rx_buf := [STX, 3, 0x41]\<rparr>"
  have st: "state ?s = R_DATA"
    by (simp add: receiving_example_def)
  have k: "loop_body ?s = (Inr False, if STX = SOH \<or> STX = NAK then cancel_timer ?s else ?s) \<and>
         process_buffer ?s = (None, snd (loop_body ?s)) \<and>
         rx_buf (snd (process_buffer ?s)) = rx_buf ?s \<and>
         (\<forall>more. process_data more (snd (process_buffer ?s))
                   = process_buffer (?s\<lparr>rx_buf := rx_buf ?s @ more\<rparr>))"
    by (rule need_more_data_keeps_buffer [of ?s STX 3])
       (simp_all add: receiving_example_state ctrl_defs)
  from k have pb: "process_buffer ?s = (None, ?s)"
    by (simp add: ctrl_defs)
  from k have "process_data [0x42, 0x43] (snd (process_buffer ?s))
      = process_buffer (?s\<lparr>rx_buf := rx_buf ?s @ [0x42, 0x43]\<rparr>)"
    by blast
  with pb st show ?thesis by simp
qed

subsection \<open>Text packets\<close>

lemma sending_example_fields:
  "cb sending_example = all_callbacks"
  "rx_buf sending_example = []"
  "file_handle sending_example = Some (Reader [0x41, 0x42, 0x43] 0)"
  "filename sending_example = lit ''a.txt''"
  "file_size sending_example = 3"
  "bytes_transferred sending_example = 0"
  "timer sending_example = True"
  "si_retries sending_example = 0"
  by (simp_all add: sending_example_def start_send_def init_def Let_def basename_def lit_def)

text \<open>
  Claim C2 as stated fails. A sender waiting in \<open>S_INIT\<close> receives the complete Text packet
  \<open>DLE 02 06 05\<close>: no event carries its text, the four bytes are taken apart one by one, and
  the two payload bytes are read as a CancelAck, which ends the transfer in \<open>ERROR\<close>.
\<close>

theorem text_packet_counterexample:
  "state sending_example = S_INIT \<and>
   state (snd (process_data [DLE, 2, ACK, 5] sending_example)) = ERROR \<and>
   Log RECEIVED (lit ''TX: '' @ decode_ascii [ACK, 5])
     \<notin> set (trace (snd (process_data [DLE, 2, ACK, 5] sending_example))) \<and>
   Log RECEIVED (lit ''TX: '' @ decode_ascii [ACK, 5]) \<notin> set (trace sending_example)"
  by code_simp

text \<open>
  Claim C2, as amended. Only the handler of the sender's data state knows the Text class:
  in \<open>S_DATA\<close> a complete Text packet is consumed, raises a \<open>RECEIVED\<close> event carrying its text
  and leaves the state as it is. In every other non-terminal state the class byte \<open>DLE\<close> is
  an unexpected byte: that one byte is dropped, no event is raised, and the bytes behind it
  are decoded next.
\<close>

theorem text_packet_only_in_sender_data:
  assumes "2 \<le> length (rx_buf s)" and "rx_buf s ! 0 = DLE"
  shows "(state s = S_DATA \<and> rx_buf s = DLE # len # payload @ rest \<and> length payload = unat len \<longrightarrow>
            loop_body s = (Inr True, log RECEIVED (lit ''TX: '' @ decode_ascii payload)
                                       (s\<lparr>rx_buf := rest\<rparr>)) \<and>
            state (snd (loop_body s)) = S_DATA \<and>
            trace (snd (loop_body s)) =
              trace s @ (if on_event (cb s)
                         then [Log RECEIVED (lit ''TX: '' @ decode_ascii payload)] else [])) \<and>
         (state s \<in> {S_INIT, S_HEADER, S_EOF, S_EOT, R_WAIT, R_HEADER} \<longrightarrow>
            loop_body s = (Inr True, (cancel_timer s)\<lparr>rx_buf := drop 1 (rx_buf s)\<rparr>)) \<and>
         (state s = R_DATA \<longrightarrow> loop_body s = (Inr True, s\<lparr>rx_buf := drop 1 (rx_buf s)\<rparr>))"
proof -
  have a: "loop_body s = (Inr True, log RECEIVED (lit ''TX: '' @ decode_ascii payload)
                                       (s\<lparr>rx_buf := rest\<rparr>))"
    if "state s = S_DATA" "rx_buf s = DLE # len # payload @ rest" "length payload = unat len"
    using that
    by (simp add: loop_body_def Let_def ctrl_defs process_sender_data_interrupt_def)
  have b: "loop_body s = (Inr True, (cancel_timer s)\<lparr>rx_buf := drop 1 (rx_buf s)\<rparr>)"
    if "state s \<in> {S_INIT, S_HEADER, S_EOF, S_EOT, R_WAIT, R_HEADER}"
    using that assms(2)
    by (auto simp: loop_body_def Let_def ctrl_defs process_sender_response_def
          process_receiver_control_def)
  have c: "loop_body s = (Inr True, s\<lparr>rx_buf := drop 1 (rx_buf s)\<rparr>)" if "state s = R_DATA"
    using that assms(2)
    by (simp add: loop_body_def Let_def ctrl_defs process_receiver_data_def)
  from a b c show ?thesis by auto
qed

theorem text_packet_only_in_sender_data_witness:
  "loop_body (sending_data_example\<lparr>rx_buf := [DLE, 2, 0x68, 0x69]\<rparr>)
     = (Inr True, log RECEIVED (lit ''TX: '' @ decode_ascii [0x68, 0x69])
                    (sending_data_example\<lparr>rx_buf := []\<rparr>)) \<and>
   state (snd (loop_body (sending_data_example\<lparr>rx_buf := [DLE, 2, 0x68, 0x69]\<rparr>))) = S_DATA \<and>
   loop_body (sending_example\<lparr>rx_buf := [DLE, 2, 0x68, 0x69]\<rparr>)
     = (Inr True, (cancel_timer sending_example)\<lparr>rx_buf := [2, 0x68, 0x69]\<rparr>) \<and>
   loop_body (receiving_example\<lparr>rx_buf := [DLE, 2, 0x68, 0x69]\<rparr>)
     = (Inr True, receiving_example\<lparr>rx_buf := [2, 0x68, 0x69]\<rparr>)"
proof -
  let ?b = "[DLE, 2, 0x68, 0x69]"
  have "state (sending_data_example\<lparr>rx_buf := ?b\<rparr>) = S_DATA"
    by (simp add: sending_data_example_def)
  with text_packet_only_in_sender_data [of "sending_data_example\<lparr>rx_buf := ?b\<rparr>" 2 "[0x68, 0x69]" "[]"]
  have 1: "loop_body (sending_data_example\<lparr>rx_buf := ?b\<rparr>)
     = (Inr True, log RECEIVED (lit ''TX: '' @ decode_ascii [0x68, 0x69])
                    (sending_data_example\<lparr>rx_buf := []\<rparr>))"
    and 2: "state (snd (loop_body (sending_data_example\<lparr>rx_buf := ?b\<rparr>))) = S_DATA"
    by simp_all
  have 3: "loop_body (sending_example\<lparr>rx_buf := ?b\<rparr>)
     = (Inr True, (cancel_timer sending_example)\<lparr>rx_buf := [2, 0x68, 0x69]\<rparr>)"
    using text_packet_only_in_sender_data [of "sending_example\<lparr>rx_buf := ?b\<rparr>"]
    by (simp add: sending_example_state cancel_timer_rx_buf_update [symmetric])
  have 4: "loop_body (receiving_example\<lparr>rx_buf := ?b\<rparr>)
     = (Inr True, receiving_example\<lparr>rx_buf := [2, 0x68, 0x69]\<rparr>)"
    using text_packet_only_in_sender_data [of "receiving_example\<lparr>rx_buf := ?b\<rparr>"]
    by (simp add: receiving_example_state)
  from 1 2 3 4 show ?thesis by simp
qed

subsection \<open>The packets on the wire\<close>

lemma extends_iff: "extends s s' \<longleftrightarrow> (\<exists>m. trace s' = trace s @ m)"
  unfolding extends_def
  by (metis append_eq_conv_conj append_take_drop_id)

lemma extends_refl [simp]: "extends s s"
  by (simp add: extends_def)

lemma extends_trans: "extends s t \<Longrightarrow> extends t u \<Longrightarrow> extends s u"
  by (auto simp: extends_iff)

lemma extends_same_trace: "trace t = trace s \<Longrightarrow> extends s t"
  by (simp add: extends_def)

lemma extends_cong: "trace t = trace t' \<Longrightarrow> extends s t \<Longrightarrow> extends s t'"
  by (simp add: extends_def)

lemma trace_simple_senders [simp]:
  "trace (send_rr s) = trace s @ (if send_raw (cb s) then [Send [ACK, 0x01]] else [])
     @ (if on_event (cb s) then [Log SENT (lit ''RR (Receive Ready)'')] else [])"
  "trace (send_rf s) = trace s @ (if send_raw (cb s) then [Send [ACK, 0x02]] else [])
     @ (if on_event (cb s) then [Log SENT (lit ''RF (Receive File)'')] else [])"
  "trace (send_af s) = trace s @ (if send_raw (cb s) then [Send [ACK, 0x03]] else [])
     @ (if on_event (cb s) then [Log SENT (lit ''AF (Ack End of File)'')] else [])"
  "trace (send_at s) = trace s @ (if send_raw (cb s) then [Send [ACK, 0x04]] else [])
     @ (if on_event (cb s) then [Log SENT (lit ''AT (Ack End of Transmission)'')] else [])"
  "trace (send_ca s) = trace s @ (if send_raw (cb s) then [Send [ACK, 0x05]] else [])
     @ (if on_event (cb s) then [Log SENT (lit ''CA (Cancel Ack)'')] else [])"
  "trace (send_eof s) = trace s @ (if send_raw (cb s) then [Send [ETX, 0x01]] else [])
     @ (if on_event (cb s) then [Log SENT (lit ''EF (End of File)'')] else [])"
  "trace (send_eot s) = trace s @ (if send_raw (cb s) then [Send [EOT, 0x01]] else [])
     @ (if on_event (cb s) then [Log SENT (lit ''ET (End of Transmission)'')] else [])"
  by (simp_all add: send_rr_def send_rf_def send_af_def send_at_def send_ca_def send_eof_def
        send_eot_def)

lemma send_header_trace:
  "trace (snd (send_header s)) =
     trace s @ (if length (header_payload s) < 256
                then (if send_raw (cb s) then [Send (frame SOH (header_payload s))] else [])
                  @ (if on_event (cb s)
                     then [Log SENT (lit ''HD (Header) file='' @ filename s @ lit '' size=''
                                       @ str_int (file_size s))] else [])
                else [])"
  by (simp add: send_header_def bytes2_def Let_def frame_def)

lemma extends_basic [simp]:
  "extends s (log ev m s)"
  "extends s (send_packet d s)"
  "extends s (emit e s)"
  "extends s (update_progress s)"
  "extends s (cancel_timer s)"
  "extends s (start_timer s)"
  "extends s (finish ok m s)"
  "extends s (send_eof s)"
  "extends s (send_eot s)"
  "extends s (snd (send_header s))"
  by (simp_all add: extends_def finish_trace send_header_trace)

lemma send_data_block_extends: "extends s (snd (send_data_block s))"
  by (simp add: send_data_block_def Let_def extends_def split: option.splits pyfile.splits)

lemma send_data_loop_extends: "extends s (snd (send_data_loop s))"
proof (induction s rule: send_data_loop.induct)
  case (1 s)
  show ?case
  proof (cases "state s = S_DATA")
    case False
    then show ?thesis by (subst send_data_loop.simps) simp
  next
    case True
    obtain x s1 where r: "send_data_block s = (x, s1)" by (cases "send_data_block s")
    from send_data_block_extends [of s] r have s1: "extends s s1" by simp
    show ?thesis
    proof (cases x)
      case (Inl e)
      with True r s1 show ?thesis by (subst send_data_loop.simps) simp
    next
      case (Inr again)
      show ?thesis
      proof (cases again)
        case True
        have "extends s1 (snd (send_data_loop s1))"
          by (rule "1.IH" [OF \<open>state s = S_DATA\<close> r [symmetric] Inr True])
        with s1 have "extends s (snd (send_data_loop s1))" by (rule extends_trans)
        with \<open>state s = S_DATA\<close> r Inr True show ?thesis
          by (subst send_data_loop.simps) simp
      next
        case False
        have "extends s1 (send_eof (if file_handle s1 \<noteq> None
                  then (emit FileClose s1)\<lparr>file_handle := None\<rparr> else s1))"
          by (simp add: extends_def)
        with s1 have "extends s (send_eof (if file_handle s1 \<noteq> None
                  then (emit FileClose s1)\<lparr>file_handle := None\<rparr> else s1))"
          by (rule extends_trans)
        with \<open>state s = S_DATA\<close> r Inr False show ?thesis
          by (subst send_data_loop.simps) (simp add: Let_def)
      qed
    qed
  qed
qed

lemma reaction_first:
  assumes "extends t (snd (loop_body s))" and "trace t = trace s @ [e]"
  shows "take 1 (reaction s) = [e]"
proof -
  from assms obtain m where "trace (snd (loop_body s)) = trace s @ e # m"
    by (auto simp: extends_iff)
  then show ?thesis by (simp add: reaction_def)
qed

lemma logs_receivedI:
  assumes "extends t (snd (loop_body s))" and "trace t = trace s @ [Log RECEIVED msg]"
  shows "logs_received s msg"
  unfolding logs_received_def using assms by (rule reaction_first)

lemma extends_send_data_loop: "extends s t \<Longrightarrow> extends s (snd (send_data_loop t))"
  by (erule extends_trans) (rule send_data_loop_extends)

lemma extends_send_header: "extends s t \<Longrightarrow> extends s (snd (send_header t))"
  by (erule extends_trans) simp

lemma extends_finish: "extends s t \<Longrightarrow> extends s (finish ok m t)"
  by (erule extends_trans) simp

lemma extends_send_eot: "extends s t \<Longrightarrow> extends s (send_eot t)"
  by (erule extends_trans) simp

lemma extends_log: "extends s t \<Longrightarrow> extends s (log ev m t)"
  by (erule extends_trans) simp

lemma extends_state_update: "extends s t \<Longrightarrow> extends s (t\<lparr>state := x\<rparr>)"
  by (simp add: extends_def)

lemma unat_length_byte: "n < 256 \<Longrightarrow> unat (of_nat n :: byte) = n"
  by (simp add: unat_of_nat)

lemma extends_data_loop_start [simp]:
  "extends t (snd (send_data_loop (log ev m (t\<lparr>state := x\<rparr>))))"
  "extends t (snd (send_data_loop (t\<lparr>state := x\<rparr>)))"
  by (rule extends_send_data_loop, simp add: extends_def)+

lemma process_sender_response_ack_extends:
  assumes "(k, msg) \<in> {(1, lit ''RR (Receive Ready)''), (2, lit ''RF (Receive File)''),
        (3, lit ''AF (Ack End of File)''), (4, lit ''AT (Ack End of Transmission)''),
        (5, lit ''CA (Cancel Ack)'')}"
  shows "extends (log RECEIVED msg ((cancel_timer s)\<lparr>rx_buf := drop 2 (rx_buf s)\<rparr>))
           (snd (process_sender_response ACK k s))"
proof -
  consider "k = 1" "msg = lit ''RR (Receive Ready)''" | "k = 2" "msg = lit ''RF (Receive File)''"
    | "k = 3" "msg = lit ''AF (Ack End of File)''"
    | "k = 4" "msg = lit ''AT (Ack End of Transmission)''"
    | "k = 5" "msg = lit ''CA (Cancel Ack)''"
    using assms by auto
  then show ?thesis
  proof cases
    case 1
    then show ?thesis by (simp add: process_sender_response_def Let_def)
  next
    case 2
    then show ?thesis by (simp add: process_sender_response_def Let_def)
  next
    case 3
    then show ?thesis by (simp add: process_sender_response_def Let_def)
  next
    case 4
    then show ?thesis by (simp add: process_sender_response_def Let_def)
  next
    case 5
    then show ?thesis by (simp add: process_sender_response_def Let_def)
  qed
qed

lemma ack_reply_round_trip:
  assumes st: "state s \<in> {S_INIT, S_HEADER, S_EOF, S_EOT}"
    and buf: "rx_buf s = [ACK, k] @ rest" and ev: "on_event (cb s)"
    and k: "(k, msg) \<in> {(1, lit ''RR (Receive Ready)''), (2, lit ''RF (Receive File)''),
        (3, lit ''AF (Ack End of File)''), (4, lit ''AT (Ack End of Transmission)''),
        (5, lit ''CA (Cancel Ack)'')}"
  shows "rx_buf (snd (loop_body s)) = rest \<and> logs_received s msg"
proof -
  from st buf have body: "loop_body s = process_sender_response ACK k s"
    by (auto simp: loop_body_def Let_def ctrl_defs)
  have consumed: "rx_buf (snd (loop_body s)) = rest"
    using buf by (simp add: body process_sender_response_rx_buf)
  let ?t = "log RECEIVED msg ((cancel_timer s)\<lparr>rx_buf := drop 2 (rx_buf s)\<rparr>)"
  have tr: "trace ?t = trace s @ [Log RECEIVED msg]"
    using ev by simp
  from process_sender_response_ack_extends [OF k, of s] body
  have "extends ?t (snd (loop_body s))" by simp
  from logs_receivedI [OF this tr] consumed show ?thesis by simp
qed

lemma frame_split:
  assumes "length P < 256" and "buf = frame c P @ rest"
  shows "buf ! 0 = c" and "buf ! 1 = of_nat (length P)" and "unat (buf ! 1) = length P"
    and "take (length P) (drop 2 buf) = P" and "drop (2 + length P) buf = rest"
    and "\<not> length buf < 2 + length P" and "drop (Suc (Suc (length P))) buf = rest"
  using assms by (simp_all add: frame_def unat_length_byte)

lemma send_init_round_trip:
  assumes "state s \<in> {R_WAIT, R_HEADER}" and "rx_buf s = [ENQ, 1] @ rest" and "on_event (cb s)"
  shows "rx_buf (snd (loop_body s)) = rest \<and> logs_received s (lit ''SI (Send Init)'')"
proof -
  from assms have body: "loop_body s = process_receiver_control ENQ 1 s"
    by (auto simp: loop_body_def Let_def ctrl_defs)
  let ?t = "log RECEIVED (lit ''SI (Send Init)'') ((cancel_timer s)\<lparr>rx_buf := rest\<rparr>)"
  have tr: "trace ?t = trace s @ [Log RECEIVED (lit ''SI (Send Init)'')]"
    using assms(3) by simp
  have res: "snd (loop_body s) = start_timer ((send_rr ?t)\<lparr>state := R_HEADER\<rparr>)"
    using assms(2) by (simp add: body process_receiver_control_def Let_def)
  have "extends ?t (snd (loop_body s))"
    unfolding res by (simp add: extends_def)
  from logs_receivedI [OF this tr] res show ?thesis by simp
qed

lemma eot_round_trip:
  assumes "state s \<in> {R_WAIT, R_HEADER, R_DATA}" and "rx_buf s = [EOT, 1] @ rest"
    and "on_event (cb s)"
  shows "rx_buf (snd (loop_body s)) = rest \<and> logs_received s (lit ''ET (End of Transmission)'')"
proof (cases "state s = R_DATA")
  case True
  with assms have body: "loop_body s = process_receiver_data EOT 1 s"
    by (auto simp: loop_body_def Let_def ctrl_defs)
  let ?t = "log RECEIVED (lit ''ET (End of Transmission)'') (s\<lparr>rx_buf := rest\<rparr>)"
  have tr: "trace ?t = trace s @ [Log RECEIVED (lit ''ET (End of Transmission)'')]"
    using assms(3) by simp
  have "extends ?t (snd (loop_body s)) \<and> rx_buf (snd (loop_body s)) = rest"
    using assms(2)
    by (simp add: body process_receiver_data_def Let_def ctrl_defs extends_def finish_trace)
  with logs_receivedI [OF _ tr] show ?thesis by simp
next
  case False
  with assms have body: "loop_body s = process_receiver_control EOT 1 s"
    by (auto simp: loop_body_def Let_def ctrl_defs)
  let ?t = "log RECEIVED (lit ''ET (End of Transmission)'') ((cancel_timer s)\<lparr>rx_buf := rest\<rparr>)"
  have tr: "trace ?t = trace s @ [Log RECEIVED (lit ''ET (End of Transmission)'')]"
    using assms(3) by simp
  have "extends ?t (snd (loop_body s)) \<and> rx_buf (snd (loop_body s)) = rest"
    using assms(2)
    by (simp add: body process_receiver_control_def Let_def ctrl_defs extends_def finish_trace)
  with logs_receivedI [OF _ tr] show ?thesis by simp
qed

lemma eof_round_trip:
  assumes "state s = R_DATA" and "rx_buf s = [ETX, 1] @ rest" and "on_event (cb s)"
  shows "rx_buf (snd (loop_body s)) = rest \<and> logs_received s (lit ''EF (End of File)'')"
proof -
  from assms have body: "loop_body s = process_receiver_data ETX 1 s"
    by (auto simp: loop_body_def Let_def ctrl_defs)
  let ?t = "log RECEIVED (lit ''EF (End of File)'') (s\<lparr>rx_buf := rest\<rparr>)"
  have tr: "trace ?t = trace s @ [Log RECEIVED (lit ''EF (End of File)'')]"
    using assms(3) by simp
  have "extends ?t (snd (loop_body s)) \<and> rx_buf (snd (loop_body s)) = rest"
    using assms(2)
    by (simp add: body process_receiver_data_def Let_def ctrl_defs extends_def)
  with logs_receivedI [OF _ tr] show ?thesis by simp
qed

lemma header_round_trip:
  assumes "state s \<in> {R_WAIT, R_HEADER}" and "rx_buf s = frame SOH P @ rest" and "length P < 256"
  shows "loop_body s = lift_exn (parse_header P ((cancel_timer s)\<lparr>rx_buf := rest\<rparr>))"
proof -
  note f = frame_split [OF assms(3,2)]
  from assms(1) f(1) have body: "loop_body s = process_receiver_control SOH (rx_buf s ! 1) s"
    by (auto simp: loop_body_def Let_def ctrl_defs)
  show ?thesis
    unfolding body using f
    by (simp add: process_receiver_control_def Let_def ctrl_defs)
qed

lemma data_round_trip:
  assumes "state s = R_DATA" and "rx_buf s = data_frame P @ rest"
    and "1 \<le> length P" and "length P \<le> 256"
    and "file_handle s = Some (Writer p)" and "next_result (write_results s) = None"
  shows "fst (loop_body s) = Inr True \<and> rx_buf (snd (loop_body s)) = rest \<and>
         reaction s = FileWrite P #
           (if on_progress (cb s)
            then [Progress (bytes_transferred s + int (length P)) (file_size s)] else []) \<and>
         bytes_transferred (snd (loop_body s)) = bytes_transferred s + int (length P)"
proof -
  let ?b = "if length P < 256 then of_nat (length P) else (0 :: byte)"
  from assms(2) have buf: "rx_buf s = STX # ?b # P @ rest"
    by (simp add: data_frame_def)
  have len: "(if ?b \<noteq> 0 then unat ?b else 256) = length P"
  proof (cases "length P < 256")
    case True
    then have u: "unat (of_nat (length P) :: byte) = length P"
      by (rule unat_length_byte)
    with assms(3) have "(of_nat (length P) :: byte) \<noteq> 0"
      by (metis One_nat_def not_one_le_zero unat_0)
    with True u show ?thesis by simp
  next
    case False
    with assms(4) show ?thesis by simp
  qed
  from assms(1) buf have body: "loop_body s = process_receiver_data STX ?b s"
    by (simp add: loop_body_def Let_def ctrl_defs)
  show ?thesis
    unfolding reaction_def body using assms(5,6) buf
    by (simp add: process_receiver_data_def [of STX ?b s] len Let_def file_write_def
          del: of_nat_eq_0_iff)
qed

lemma not_ready_round_trip:
  assumes "state s \<in> {S_INIT, S_HEADER, S_EOF, S_EOT}" and "rx_buf s = frame NAK P @ rest"
    and "length P < 256" and "take 1 P \<noteq> [0x52]" and "on_event (cb s)"
  shows "fst (loop_body s) = Inr True \<and> rx_buf (snd (loop_body s)) = rest \<and>
         logs_received s (lit ''NR (Not Ready) '' @ decode_ascii P) \<and>
         state (snd (loop_body s)) = ERROR"
proof -
  note f = frame_split [OF assms(3,2)]
  from assms(1) f(1) have body: "loop_body s = process_sender_response NAK (rx_buf s ! 1) s"
    by (auto simp: loop_body_def Let_def ctrl_defs)
  let ?t = "log RECEIVED (lit ''NR (Not Ready) '' @ decode_ascii P) ((cancel_timer s)\<lparr>rx_buf := rest\<rparr>)"
  have tr: "trace ?t = trace s @ [Log RECEIVED (lit ''NR (Not Ready) '' @ decode_ascii P)]"
    using assms(5) by simp
  have res: "loop_body s = (Inr True, finish False (lit ''Remote not ready: '' @ decode_ascii P) ?t)"
    unfolding body using f assms(4)
    by (simp add: process_sender_response_def Let_def ctrl_defs)
  have "extends ?t (snd (loop_body s))"
    unfolding res by simp
  from logs_receivedI [OF this tr] res show ?thesis by simp
qed

lemma cancel_round_trip:
  assumes "rx_buf s = frame CAN P @ rest" and "length P < 256" and "on_event (cb s)"
  shows "fst (loop_body s) = Inr False \<and> rx_buf (snd (loop_body s)) = rest \<and>
         logs_received s (lit ''CN (Cancel) '' @ decode_ascii P) \<and>
         state (snd (loop_body s)) = ERROR"
proof -
  note f = frame_split [OF assms(2,1)]
  let ?t = "log RECEIVED (lit ''CN (Cancel) '' @ decode_ascii P) (s\<lparr>rx_buf := rest\<rparr>)"
  have tr: "trace ?t = trace s @ [Log RECEIVED (lit ''CN (Cancel) '' @ decode_ascii P)]"
    using assms(3) by simp
  have res: "loop_body s =
      (Inr False, finish False (lit ''Cancelled by remote: '' @ decode_ascii P) (send_ca ?t))"
    using f by (simp add: loop_body_def Let_def)
  have "extends ?t (snd (loop_body s))"
    unfolding res by (simp add: extends_def finish_trace)
  from logs_receivedI [OF this tr] res show ?thesis by simp
qed

lemma builders_send_frames:
  "length r < 256 \<Longrightarrow>
     trace (snd (send_nr r s)) =
       trace s @ (if send_raw (cb s) then [Send (frame NAK (encode_ascii r))] else [])
         @ (if on_event (cb s) then [Log SENT (lit ''NR (Not Ready) '' @ r)] else [])"
  "length r < 256 \<Longrightarrow>
     trace (snd (send_cancel r s)) =
       trace s @ (if send_raw (cb s) then [Send (frame CAN (encode_ascii r))] else [])
         @ (if on_event (cb s) then [Log SENT (lit ''CN (Cancel) '' @ r)] else [])"
  "file_handle s = Some (Reader content pos) \<Longrightarrow> pos < length content \<Longrightarrow>
     trace (snd (send_data_block s)) =
       trace s @ (if send_raw (cb s)
                  then [Send (data_frame (take MAX_DATA_LEN (drop pos content)))] else [])
         @ (if on_progress (cb s)
            then [Progress (bytes_transferred s
                    + int (length (take MAX_DATA_LEN (drop pos content)))) (file_size s)]
            else [])"
  by (simp_all add: send_nr_trace send_cancel_trace frame_def encode_ascii_def
        send_data_block_def data_frame_def Let_def MAX_DATA_LEN_def)

lemma example_facts:
  "state waiting_example = R_WAIT" "on_event (cb waiting_example)"
  "on_event (cb sending_example)" "on_event (cb receiving_example)"
  "file_handle receiving_example = Some (Writer (lit ''/tmp/in/f''))"
  "write_results receiving_example = []"
  by (simp_all add: waiting_example_def start_receive_def Let_def init_def all_callbacks_def
        sending_example_fields receiving_example_def)

text \<open>
  Claim C3 as stated fails: the kind is not recovered for every payload. The bytes that
  \<open>_send_nr\<close> builds for the reason "Retry" are, at a sender that waits for the answer to its
  header, decoded as a Resume request: the header is sent again and the transfer goes on,
  where a NotReady would have ended it.
\<close>

theorem not_ready_round_trip_counterexample:
  "trace (snd (send_nr (lit ''Retry'') receiving_example))
     = [Send (frame NAK (encode_ascii (lit ''Retry''))), Log SENT (lit ''NR (Not Ready) Retry'')] \<and>
   state header_sent_example = S_HEADER \<and>
   state (snd (process_data (frame NAK (encode_ascii (lit ''Retry''))) header_sent_example))
     = S_HEADER \<and>
   Log RECEIVED (lit ''NR (Not Ready) Retry'')
     \<notin> set (trace (snd (process_data (frame NAK (encode_ascii (lit ''Retry''))) header_sent_example))) \<and>
   Log RECEIVED (lit ''RE (Resume) - not supported, restarting'')
     \<in> set (trace (snd (process_data (frame NAK (encode_ascii (lit ''Retry''))) header_sent_example)))"
  by code_simp

text \<open>
  Claim C3, as amended. For the twelve kinds the engine builds (SendInit, ReceiveReady,
  ReceiveFile, AckEof, AckEot, CancelAck, Header, Data, Eof, Eot, NotReady, Cancel): when the
  bytes of the builder stand at the front of the buffer of an engine in a state that
  accepts the kind, one decode step consumes exactly those bytes and acts on that kind with
  that payload. The payload is at most 255 bytes, for Data between 1 and 256 (the sender
  never builds an empty Data packet), and for NotReady it does not begin with the letter R
  (which marks a Resume request). The reaction that shows the kind is the \<open>RECEIVED\<close> log
  line, for Header the call of \<open>_parse_header\<close> on the payload, for Data the write of the
  payload to the file.
\<close>

theorem packet_round_trip:
  assumes "rx_buf s = w @ rest" and "on_event (cb s)"
  shows
    "(state s \<in> {R_WAIT, R_HEADER} \<and> w = [ENQ, 1] \<longrightarrow>
        rx_buf (snd (loop_body s)) = rest \<and> logs_received s (lit ''SI (Send Init)'')) \<and>
     (state s \<in> {S_INIT, S_HEADER, S_EOF, S_EOT} \<and> w = [ACK, 1] \<longrightarrow>
        rx_buf (snd (loop_body s)) = rest \<and> logs_received s (lit ''RR (Receive Ready)'')) \<and>
     (state s \<in> {S_INIT, S_HEADER, S_EOF, S_EOT} \<and> w = [ACK, 2] \<longrightarrow>
        rx_buf (snd (loop_body s)) = rest \<and> logs_received s (lit ''RF (Receive File)'')) \<and>
     (state s \<in> {S_INIT, S_HEADER, S_EOF, S_EOT} \<and> w = [ACK, 3] \<longrightarrow>
        rx_buf (snd (loop_body s)) = rest \<and> logs_received s (lit ''AF (Ack End of File)'')) \<and>
     (state s \<in> {S_INIT, S_HEADER, S_EOF, S_EOT} \<and> w = [ACK, 4] \<longrightarrow>
        rx_buf (snd (loop_body s)) = rest \<and>
        logs_received s (lit ''AT (Ack End of Transmission)'')) \<and>
     (state s \<in> {S_INIT, S_HEADER, S_EOF, S_EOT} \<and> w = [ACK, 5] \<longrightarrow>
        rx_buf (snd (loop_body s)) = rest \<and> logs_received s (lit ''CA (Cancel Ack)'')) \<and>
     (state s = R_DATA \<and> w = [ETX, 1] \<longrightarrow>
        rx_buf (snd (loop_body s)) = rest \<and> logs_received s (lit ''EF (End of File)'')) \<and>
     (state s \<in> {R_WAIT, R_HEADER, R_DATA} \<and> w = [EOT, 1] \<longrightarrow>
        rx_buf (snd (loop_body s)) = rest \<and> logs_received s (lit ''ET (End of Transmission)'')) \<and>
     (state s \<in> {R_WAIT, R_HEADER} \<and> w = frame SOH P \<and> length P \<le> 255 \<longrightarrow>
        loop_body s = lift_exn (parse_header P ((cancel_timer s)\<lparr>rx_buf := rest\<rparr>)) \<and>
        rx_buf (snd (loop_body s)) = rest) \<and>
     (state s = R_DATA \<and> w = data_frame P \<and> 1 \<le> length P \<and> length P \<le> 256 \<and>
        file_handle s = Some (Writer p) \<and> next_result (write_results s) = None \<longrightarrow>
        fst (loop_body s) = Inr True \<and> rx_buf (snd (loop_body s)) = rest \<and>
        reaction s = FileWrite P #
          (if on_progress (cb s)
           then [Progress (bytes_transferred s + int (length P)) (file_size s)] else []) \<and>
        bytes_transferred (snd (loop_body s)) = bytes_transferred s + int (length P)) \<and>
     (state s \<in> {S_INIT, S_HEADER, S_EOF, S_EOT} \<and> w = frame NAK P \<and> length P \<le> 255 \<and>
        take 1 P \<noteq> [0x52] \<longrightarrow>
        fst (loop_body s) = Inr True \<and> rx_buf (snd (loop_body s)) = rest \<and>
        logs_received s (lit ''NR (Not Ready) '' @ decode_ascii P) \<and>
        state (snd (loop_body s)) = ERROR) \<and>
     (w = frame CAN P \<and> length P \<le> 255 \<longrightarrow>
        fst (loop_body s) = Inr False \<and> rx_buf (snd (loop_body s)) = rest \<and>
        logs_received s (lit ''CN (Cancel) '' @ decode_ascii P) \<and>
        state (snd (loop_body s)) = ERROR)"
proof -
  note a = assms
  have si: "state s \<in> {R_WAIT, R_HEADER} \<and> w = [ENQ, 1] \<longrightarrow>
        rx_buf (snd (loop_body s)) = rest \<and> logs_received s (lit ''SI (Send Init)'')"
    using send_init_round_trip [of s rest] a by auto
  have ack: "state s \<in> {S_INIT, S_HEADER, S_EOF, S_EOT} \<and> w = [ACK, k] \<longrightarrow>
        rx_buf (snd (loop_body s)) = rest \<and> logs_received s msg"
    if "(k, msg) \<in> {(1, lit ''RR (Receive Ready)''), (2, lit ''RF (Receive File)''),
        (3, lit ''AF (Ack End of File)''), (4, lit ''AT (Ack End of Transmission)''),
        (5, lit ''CA (Cancel Ack)'')}" for k msg
    using ack_reply_round_trip [of s k rest msg] a that by auto
  have ef: "state s = R_DATA \<and> w = [ETX, 1] \<longrightarrow>
        rx_buf (snd (loop_body s)) = rest \<and> logs_received s (lit ''EF (End of File)'')"
    using eof_round_trip [of s rest] a by auto
  have et: "state s \<in> {R_WAIT, R_HEADER, R_DATA} \<and> w = [EOT, 1] \<longrightarrow>
        rx_buf (snd (loop_body s)) = rest \<and> logs_received s (lit ''ET (End of Transmission)'')"
    using eot_round_trip [of s rest] a by auto
  have hd: "state s \<in> {R_WAIT, R_HEADER} \<and> w = frame SOH P \<and> length P \<le> 255 \<longrightarrow>
        loop_body s = lift_exn (parse_header P ((cancel_timer s)\<lparr>rx_buf := rest\<rparr>)) \<and>
        rx_buf (snd (loop_body s)) = rest"
    using header_round_trip [of s P rest] a by auto
  have dt: "state s = R_DATA \<and> w = data_frame P \<and> 1 \<le> length P \<and> length P \<le> 256 \<and>
        file_handle s = Some (Writer p) \<and> next_result (write_results s) = None \<longrightarrow>
        fst (loop_body s) = Inr True \<and> rx_buf (snd (loop_body s)) = rest \<and>
        reaction s = FileWrite P #
          (if on_progress (cb s)
           then [Progress (bytes_transferred s + int (length P)) (file_size s)] else []) \<and>
        bytes_transferred (snd (loop_body s)) = bytes_transferred s + int (length P)"
    using data_round_trip [of s P rest p] a by blast
  have nr: "state s \<in> {S_INIT, S_HEADER, S_EOF, S_EOT} \<and> w = frame NAK P \<and> length P \<le> 255 \<and>
        take 1 P \<noteq> [0x52] \<longrightarrow>
        fst (loop_body s) = Inr True \<and> rx_buf (snd (loop_body s)) = rest \<and>
        logs_received s (lit ''NR (Not Ready) '' @ decode_ascii P) \<and>
        state (snd (loop_body s)) = ERROR"
    using not_ready_round_trip [of s P rest] a by auto
  have cn: "w = frame CAN P \<and> length P \<le> 255 \<longrightarrow>
        fst (loop_body s) = Inr False \<and> rx_buf (snd (loop_body s)) = rest \<and>
        logs_received s (lit ''CN (Cancel) '' @ decode_ascii P) \<and>
        state (snd (loop_body s)) = ERROR"
    using cancel_round_trip [of s P rest] a by auto
  from si ack [of 1] ack [of 2] ack [of 3] ack [of 4] ack [of 5] ef et hd dt nr cn
  show ?thesis by simp
qed

theorem packet_round_trip_witness:
  "(rx_buf (snd (loop_body (waiting_example\<lparr>rx_buf := [ENQ, 1] @ [SOH]\<rparr>))) = [SOH] \<and>
    logs_received (waiting_example\<lparr>rx_buf := [ENQ, 1] @ [SOH]\<rparr>) (lit ''SI (Send Init)'')) \<and>
   (rx_buf (snd (loop_body (sending_example\<lparr>rx_buf := [ACK, 1] @ []\<rparr>))) = [] \<and>
    logs_received (sending_example\<lparr>rx_buf := [ACK, 1] @ []\<rparr>) (lit ''RR (Receive Ready)'')) \<and>
   (rx_buf (snd (loop_body (sending_example\<lparr>rx_buf := [ACK, 2] @ []\<rparr>))) = [] \<and>
    logs_received (sending_example\<lparr>rx_buf := [ACK, 2] @ []\<rparr>) (lit ''RF (Receive File)'')) \<and>
   (rx_buf (snd (loop_body (sending_example\<lparr>rx_buf := [ACK, 3] @ []\<rparr>))) = [] \<and>
    logs_received (sending_example\<lparr>rx_buf := [ACK, 3] @ []\<rparr>) (lit ''AF (Ack End of File)'')) \<and>
   (rx_buf (snd (loop_body (sending_example\<lparr>rx_buf := [ACK, 4] @ []\<rparr>))) = [] \<and>
    logs_received (sending_example\<lparr>rx_buf := [ACK, 4] @ []\<rparr>)
      (lit ''AT (Ack End of Transmission)'')) \<and>
   (rx_buf (snd (loop_body (sending_example\<lparr>rx_buf := [ACK, 5] @ []\<rparr>))) = [] \<and>
    logs_received (sending_example\<lparr>rx_buf := [ACK, 5] @ []\<rparr>) (lit ''CA (Cancel Ack)'')) \<and>
   (rx_buf (snd (loop_body (receiving_example\<lparr>rx_buf := [ETX, 1] @ [EOT, 1]\<rparr>))) = [EOT, 1] \<and>
    logs_received (receiving_example\<lparr>rx_buf := [ETX, 1] @ [EOT, 1]\<rparr>) (lit ''EF (End of File)'')) \<and>
   (rx_buf (snd (loop_body (receiving_example\<lparr>rx_buf := [EOT, 1] @ []\<rparr>))) = [] \<and>
    logs_received (receiving_example\<lparr>rx_buf := [EOT, 1] @ []\<rparr>)
      (lit ''ET (End of Transmission)'')) \<and>
   loop_body (waiting_example\<lparr>rx_buf := frame SOH [0x66, 0, 0x35, 0] @ []\<rparr>)
     = lift_exn (parse_header [0x66, 0, 0x35, 0] ((cancel_timer waiting_example)\<lparr>rx_buf := []\<rparr>)) \<and>
   (rx_buf (snd (loop_body (receiving_example\<lparr>rx_buf := data_frame [0x41, 0x42] @ [ETX]\<rparr>))) = [ETX] \<and>
    reaction (receiving_example\<lparr>rx_buf := data_frame [0x41, 0x42] @ [ETX]\<rparr>)
      = [FileWrite [0x41, 0x42], Progress 2 5]) \<and>
   (rx_buf (snd (loop_body (sending_example\<lparr>rx_buf := frame NAK [0x62, 0x75, 0x73, 0x79] @ []\<rparr>))) = [] \<and>
    logs_received (sending_example\<lparr>rx_buf := frame NAK [0x62, 0x75, 0x73, 0x79] @ []\<rparr>)
      (lit ''NR (Not Ready) '' @ decode_ascii [0x62, 0x75, 0x73, 0x79])) \<and>
   (rx_buf (snd (loop_body (receiving_example\<lparr>rx_buf := frame CAN [0x62, 0x79, 0x65] @ [ETX]\<rparr>))) = [ETX] \<and>
    logs_received (receiving_example\<lparr>rx_buf := frame CAN [0x62, 0x79, 0x65] @ [ETX]\<rparr>)
      (lit ''CN (Cancel) '' @ decode_ascii [0x62, 0x79, 0x65]))"
proof -
  note ex = example_facts sending_example_state receiving_example_state next_result_def
  have si: "rx_buf (snd (loop_body (waiting_example\<lparr>rx_buf := [ENQ, 1] @ [SOH]\<rparr>))) = [SOH] \<and>
    logs_received (waiting_example\<lparr>rx_buf := [ENQ, 1] @ [SOH]\<rparr>) (lit ''SI (Send Init)'')"
    using packet_round_trip [of "waiting_example\<lparr>rx_buf := [ENQ, 1] @ [SOH]\<rparr>" "[ENQ, 1]" "[SOH]"]
    by (simp add: ex)
  have ack: "rx_buf (snd (loop_body (sending_example\<lparr>rx_buf := [ACK, k] @ []\<rparr>))) = [] \<and>
    logs_received (sending_example\<lparr>rx_buf := [ACK, k] @ []\<rparr>) msg"
    if "(k, msg) \<in> {(1, lit ''RR (Receive Ready)''), (2, lit ''RF (Receive File)''),
        (3, lit ''AF (Ack End of File)''), (4, lit ''AT (Ack End of Transmission)''),
        (5, lit ''CA (Cancel Ack)'')}" for k msg
    using packet_round_trip [of "sending_example\<lparr>rx_buf := [ACK, k] @ []\<rparr>" "[ACK, k]" "[]"] that
    by (auto simp: ex)
  have ef: "rx_buf (snd (loop_body (receiving_example\<lparr>rx_buf := [ETX, 1] @ [EOT, 1]\<rparr>))) = [EOT, 1] \<and>
    logs_received (receiving_example\<lparr>rx_buf := [ETX, 1] @ [EOT, 1]\<rparr>) (lit ''EF (End of File)'')"
    using packet_round_trip [of "receiving_example\<lparr>rx_buf := [ETX, 1] @ [EOT, 1]\<rparr>" "[ETX, 1]" "[EOT, 1]"]
    by (simp add: ex)
  have et: "rx_buf (snd (loop_body (receiving_example\<lparr>rx_buf := [EOT, 1] @ []\<rparr>))) = [] \<and>
    logs_received (receiving_example\<lparr>rx_buf := [EOT, 1] @ []\<rparr>)
      (lit ''ET (End of Transmission)'')"
    using packet_round_trip [of "receiving_example\<lparr>rx_buf := [EOT, 1] @ []\<rparr>" "[EOT, 1]" "[]"]
    by (simp add: ex)
  have hd: "loop_body (waiting_example\<lparr>rx_buf := frame SOH [0x66, 0, 0x35, 0] @ []\<rparr>)
     = lift_exn (parse_header [0x66, 0, 0x35, 0] ((cancel_timer waiting_example)\<lparr>rx_buf := []\<rparr>))"
    using packet_round_trip [of "waiting_example\<lparr>rx_buf := frame SOH [0x66, 0, 0x35, 0] @ []\<rparr>"
        "frame SOH [0x66, 0, 0x35, 0]" "[]" "[0x66, 0, 0x35, 0]"]
    by (simp add: ex cancel_timer_rx_buf_update)
  have dt: "rx_buf (snd (loop_body (receiving_example\<lparr>rx_buf := data_frame [0x41, 0x42] @ [ETX]\<rparr>))) = [ETX] \<and>
    reaction (receiving_example\<lparr>rx_buf := data_frame [0x41, 0x42] @ [ETX]\<rparr>)
      = [FileWrite [0x41, 0x42], Progress 2 5]"
    using packet_round_trip [of "receiving_example\<lparr>rx_buf := data_frame [0x41, 0x42] @ [ETX]\<rparr>"
        "data_frame [0x41, 0x42]" "[ETX]" "[0x41, 0x42]" "lit ''/tmp/in/f''"]
    by (simp add: ex) (simp add: receiving_example_def all_callbacks_def)
  have nr: "rx_buf (snd (loop_body (sending_example\<lparr>rx_buf := frame NAK [0x62, 0x75, 0x73, 0x79] @ []\<rparr>))) = [] \<and>
    logs_received (sending_example\<lparr>rx_buf := frame NAK [0x62, 0x75, 0x73, 0x79] @ []\<rparr>)
      (lit ''NR (Not Ready) '' @ decode_ascii [0x62, 0x75, 0x73, 0x79])"
    using packet_round_trip [of "sending_example\<lparr>rx_buf := frame NAK [0x62, 0x75, 0x73, 0x79] @ []\<rparr>"
        "frame NAK [0x62, 0x75, 0x73, 0x79]" "[]" "[0x62, 0x75, 0x73, 0x79]"]
    by (simp add: ex)
  have cn: "rx_buf (snd (loop_body (receiving_example\<lparr>rx_buf := frame CAN [0x62, 0x79, 0x65] @ [ETX]\<rparr>))) = [ETX] \<and>
    logs_received (receiving_example\<lparr>rx_buf := frame CAN [0x62, 0x79, 0x65] @ [ETX]\<rparr>)
      (lit ''CN (Cancel) '' @ decode_ascii [0x62, 0x79, 0x65])"
    using packet_round_trip [of "receiving_example\<lparr>rx_buf := frame CAN [0x62, 0x79, 0x65] @ [ETX]\<rparr>"
        "frame CAN [0x62, 0x79, 0x65]" "[ETX]" "[0x62, 0x79, 0x65]"]
    by (simp add: ex)
  from si ack [of 1] ack [of 2] ack [of 3] ack [of 4] ack [of 5] ef et hd dt nr cn
  show ?thesis by simp
qed

subsection \<open>Finishing\<close>

text \<open>
  One call of \<open>_finish\<close> does what a terminal transition is meant to do: it leaves the state
  \<open>DONE\<close> or \<open>ERROR\<close>, no file open, no timer armed, and it fires the finished callback
  once.
\<close>

lemma finish_closes_and_fires_once:
  "state (finish ok m s) = (if ok then DONE else ERROR) \<and>
   file_handle (finish ok m s) = None \<and> timer (finish ok m s) = False \<and>
   count_list (trace (finish ok m s)) (Finished ok m)
     = count_list (trace s) (Finished ok m) + (if on_finished (cb s) then 1 else 0)"
  by (simp add: finish_trace)

text \<open>
  Claim C7 fails on the code. The Cancel check of \<open>_process_buffer\<close> comes before the routing
  on the state, so it also runs in \<open>DONE\<close> and \<open>ERROR\<close>, where the last branch of the routing
  means to discard the input: a receiver that gets a Cancel packet ends in \<open>ERROR\<close> with the
  finished callback fired once, and a second Cancel packet fires it again.
\<close>

theorem finished_fires_twice:
  "state (snd (process_data [CAN, 0] waiting_example)) = ERROR \<and>
   file_handle (snd (process_data [CAN, 0] waiting_example)) = None \<and>
   timer (snd (process_data [CAN, 0] waiting_example)) = False \<and>
   count_list (trace (snd (process_data [CAN, 0] waiting_example)))
     (Finished False (lit ''Cancelled by remote: '')) = 1 \<and>
   count_list (trace (snd (process_data [CAN, 0] (snd (process_data [CAN, 0] waiting_example)))))
     (Finished False (lit ''Cancelled by remote: '')) = 2"
  by code_simp

subsection \<open>The transfer counter\<close>

lemma sender_inv_cong:
  "state t = state s \<Longrightarrow> file_handle t = file_handle s \<Longrightarrow>
   bytes_transferred t = bytes_transferred s \<Longrightarrow> file_size t = file_size s \<Longrightarrow>
   sender_inv fsize n t = sender_inv fsize n s"
  by (simp add: sender_inv_def cong: option.case_cong pyfile.case_cong)

lemma sender_inv_simps [simp]:
  "sender_inv fsize n (log ev m s) = sender_inv fsize n s"
  "sender_inv fsize n (send_packet d s) = sender_inv fsize n s"
  "sender_inv fsize n (emit e s) = sender_inv fsize n s"
  "sender_inv fsize n (update_progress s) = sender_inv fsize n s"
  "sender_inv fsize n (cancel_timer s) = sender_inv fsize n s"
  "sender_inv fsize n (start_timer s) = sender_inv fsize n s"
  "sender_inv fsize n (send_si s) = sender_inv fsize n s"
  "sender_inv fsize n (send_ca s) = sender_inv fsize n s"
  "sender_inv fsize n (snd (send_cancel r s)) = sender_inv fsize n s"
  "sender_inv fsize n (s\<lparr>rx_buf := x\<rparr>) = sender_inv fsize n s"
  "sender_inv fsize n (s\<lparr>si_retries := k\<rparr>) = sender_inv fsize n s"
  by (rule sender_inv_cong; simp)+

lemma sender_inv_bound:
  "sender_inv fsize n s \<Longrightarrow>
     file_size s = int fsize \<and> 0 \<le> bytes_transferred s \<and> bytes_transferred s \<le> int n"
  by (auto simp: sender_inv_def split: option.splits pyfile.splits)

lemma sender_inv_state:
  "sender_inv fsize n s \<Longrightarrow> x \<in> {S_INIT, S_HEADER, S_DATA, S_EOF, S_EOT, DONE, ERROR} \<Longrightarrow>
     sender_inv fsize n (s\<lparr>state := x\<rparr>)"
  by (auto simp: sender_inv_def split: option.splits pyfile.splits)

lemma sender_inv_finish [simp]: "sender_inv fsize n s \<Longrightarrow> sender_inv fsize n (finish ok m s)"
  by (auto simp: sender_inv_def split: option.splits pyfile.splits)

lemma sender_inv_send_header [simp]: "sender_inv fsize n s \<Longrightarrow> sender_inv fsize n (snd (send_header s))"
  by (auto simp: sender_inv_def send_header_def Let_def bytes2_def
        split: option.splits pyfile.splits)

lemma sender_inv_send_eot [simp]: "sender_inv fsize n s \<Longrightarrow> sender_inv fsize n (send_eot s)"
  by (auto simp: sender_inv_def split: option.splits pyfile.splits)

lemma sender_inv_send_eof [simp]: "sender_inv fsize n s \<Longrightarrow> sender_inv fsize n (send_eof s)"
  by (auto simp: sender_inv_def split: option.splits pyfile.splits)

lemma sender_inv_close:
  "sender_inv fsize n s \<Longrightarrow>
     sender_inv fsize n (if file_handle s \<noteq> None then (emit FileClose s)\<lparr>file_handle := None\<rparr> else s)"
  by (auto simp: sender_inv_def split: option.splits pyfile.splits)

lemma sender_inv_send_data_block: "sender_inv fsize n s \<Longrightarrow> sender_inv fsize n (snd (send_data_block s))"
  by (auto simp: sender_inv_def send_data_block_def Let_def update_progress_def send_packet_def
        emit_def split: option.splits pyfile.splits)

lemma sender_inv_send_data_loop: "sender_inv fsize n s \<Longrightarrow> sender_inv fsize n (snd (send_data_loop s))"
proof (induction s rule: send_data_loop.induct)
  case (1 s)
  show ?case
  proof (cases "state s = S_DATA")
    case False
    with "1.prems" show ?thesis by (subst send_data_loop.simps) simp
  next
    case True
    obtain x s1 where r: "send_data_block s = (x, s1)" by (cases "send_data_block s")
    from sender_inv_send_data_block [OF "1.prems"] r have s1: "sender_inv fsize n s1" by simp
    show ?thesis
    proof (cases x)
      case (Inl e)
      with True r s1 show ?thesis by (subst send_data_loop.simps) simp
    next
      case (Inr again)
      show ?thesis
      proof (cases again)
        case True
        have "sender_inv fsize n (snd (send_data_loop s1))"
          by (rule "1.IH" [OF \<open>state s = S_DATA\<close> r [symmetric] Inr True s1])
        with \<open>state s = S_DATA\<close> r Inr True show ?thesis
          by (subst send_data_loop.simps) simp
      next
        case False
        from sender_inv_send_eof [OF sender_inv_close [OF s1]]
        show ?thesis
          using \<open>state s = S_DATA\<close> r Inr False
          by (subst send_data_loop.simps) (simp add: Let_def)
      qed
    qed
  qed
qed

lemma sender_inv_data_loop_start [simp]:
  "sender_inv fsize n s \<Longrightarrow> sender_inv fsize n (snd (send_data_loop (log ev m (s\<lparr>state := S_DATA\<rparr>))))"
  "sender_inv fsize n s \<Longrightarrow> sender_inv fsize n (snd (send_data_loop (s\<lparr>state := S_DATA\<rparr>)))"
  by (rule sender_inv_send_data_loop, simp add: sender_inv_state)+

lemma sender_inv_resume:
  "sender_inv fsize n s \<Longrightarrow> file_handle s = Some f \<Longrightarrow>
     sender_inv fsize n (s\<lparr>file_handle := Some (seek0 f), bytes_transferred := 0\<rparr>)"
  by (auto simp: sender_inv_def seek0_def split: pyfile.splits)

lemma sender_inv_process_sender_response:
  assumes "sender_inv fsize n s"
  shows "sender_inv fsize n (snd (process_sender_response a b s))"
proof (cases "a = ACK")
  case True
  with assms show ?thesis
    by (simp add: process_sender_response_def Let_def)
next
  case False
  show ?thesis
  proof (cases "a = NAK")
    case True
    with False assms show ?thesis
      by (simp add: process_sender_response_def Let_def sender_inv_resume split: option.splits)
  next
    case nak: False
    with False assms show ?thesis
      by (simp add: process_sender_response_def Let_def)
  qed
qed

lemma sender_inv_process_sender_data_interrupt:
  "sender_inv fsize n s \<Longrightarrow> sender_inv fsize n (snd (process_sender_data_interrupt a b s))"
  by (simp add: process_sender_data_interrupt_def Let_def)

lemma sender_inv_loop_body:
  assumes "sender_inv fsize n s"
  shows "sender_inv fsize n (snd (loop_body s))"
proof -
  from assms have st: "state s \<in> {S_INIT, S_HEADER, S_DATA, S_EOF, S_EOT, DONE, ERROR}"
    by (simp add: sender_inv_def)
  show ?thesis
  proof (cases "rx_buf s ! 0 = CAN")
    case True
    with assms show ?thesis by (simp add: loop_body_def Let_def)
  next
    case False
    with st assms show ?thesis
      by (auto simp: loop_body_def Let_def sender_inv_process_sender_response
            sender_inv_process_sender_data_interrupt)
  qed
qed

lemma sender_inv_process_buffer: "sender_inv fsize n s \<Longrightarrow> sender_inv fsize n (snd (process_buffer s))"
proof (induction s rule: process_buffer.induct)
  case (1 s)
  show ?case
  proof (cases "2 \<le> length (rx_buf s)")
    case False
    with "1.prems" show ?thesis by (simp add: process_buffer_short)
  next
    case True
    obtain x s1 where r: "loop_body s = (x, s1)" by (cases "loop_body s")
    from sender_inv_loop_body [OF "1.prems"] r have s1: "sender_inv fsize n s1" by simp
    show ?thesis
    proof (cases x)
      case (Inl e)
      with True r s1 show ?thesis by (subst process_buffer.simps) simp
    next
      case (Inr again)
      show ?thesis
      proof (cases again)
        case again: True
        have "sender_inv fsize n (snd (process_buffer s1))"
          by (rule "1.IH" [OF True r [symmetric] Inr again s1])
        with True r Inr again show ?thesis by (subst process_buffer.simps) simp
      next
        case False
        with True r Inr s1 show ?thesis by (subst process_buffer.simps) simp
      qed
    qed
  qed
qed

lemma sender_inv_not_idle: "sender_inv fsize n s \<Longrightarrow> state s \<noteq> IDLE"
  by (auto simp: sender_inv_def)

lemma sending_inv: "sending fsize content s \<Longrightarrow> sender_inv fsize (length content) s"
proof (induction rule: sending.induct)
  case (started s0 filepath)
  then show ?case
    by (simp add: start_send_def Let_def) (simp add: sender_inv_def)
next
  case (data s bytes)
  then show ?case
    using sender_inv_process_buffer [of fsize "length content" "s\<lparr>rx_buf := rx_buf s @ bytes\<rparr>"]
    by (simp add: process_data_def sender_inv_not_idle)
next
  case (timeout s)
  then show ?case
    by (simp add: on_timeout_def Let_def)
next
  case (cancelled s)
  then show ?case
    by (simp add: cancel_def)
next
  case (send_again s filepath found)
  then show ?case
    by (simp add: start_send_def sender_inv_not_idle)
next
  case (receive_again s dir dir_ok)
  then show ?case
    by (simp add: start_receive_def sender_inv_not_idle)
qed

text \<open>
  In a sending session \<open>file_size\<close> stays the size reported at the start, and the counter is
  bounded by the number of bytes the file yields, whatever that size was.
\<close>

lemma sender_counter_at_most_read:
  "sending fsize content s \<Longrightarrow>
     file_size s = int fsize \<and> 0 \<le> bytes_transferred s \<and>
     bytes_transferred s \<le> int (length content)"
  by (rule sender_inv_bound) (rule sending_inv)

text \<open>
  Claim C1 as stated fails on the receiving side: \<open>_process_receiver_data\<close> adds the length of
  every Data packet and never looks at \<open>file_size\<close>. With a header that announces 5 bytes and
  a Data packet of 10 bytes the counter stands at 10.
\<close>

theorem receiver_counter_counterexample:
  "state overrun_example = R_DATA \<and> 0 < file_size overrun_example \<and>
   file_size overrun_example = 5 \<and> bytes_transferred overrun_example = 10 \<and>
   \<not> bytes_transferred overrun_example \<le> file_size overrun_example"
  by code_simp

text \<open>
  It fails on the sending side as well when the file yields more bytes than
  \<open>os.path.getsize\<close> reported: \<open>_send_data_block\<close> reads until the file is exhausted and never
  looks at \<open>file_size\<close>. A file of reported size 3 that has grown to 8 bytes is sent whole.
\<close>

lemma sender_counter_grown_file:
  "sending 3 [0x41, 0x42, 0x43, 0x44, 0x45, 0x46, 0x47, 0x48] grown_file_example \<and>
   state grown_file_example = S_EOF \<and> file_size grown_file_example = 3 \<and>
   bytes_transferred grown_file_example = 8"
proof -
  have "state (init all_callbacks [] []) = IDLE"
    by (simp add: init_def)
  then have "sending 3 [0x41, 0x42, 0x43, 0x44, 0x45, 0x46, 0x47, 0x48]
      (snd (start_send (lit ''/tmp/a.txt'')
             (Present 3 [0x41, 0x42, 0x43, 0x44, 0x45, 0x46, 0x47, 0x48])
             (init all_callbacks [] [])))"
    by (rule sending.started)
  then have "sending 3 [0x41, 0x42, 0x43, 0x44, 0x45, 0x46, 0x47, 0x48] grown_file_example"
    unfolding grown_file_example_def by (rule sending.data)
  moreover have "state grown_file_example = S_EOF \<and> file_size grown_file_example = 3 \<and>
      bytes_transferred grown_file_example = 8"
    by code_simp
  ultimately show ?thesis by simp
qed

text \<open>
  Claim C1, as amended. In a session started by \<open>start_send\<close> on a file that yields no more
  bytes than \<open>os.path.getsize\<close> reported for it at the start, \<open>bytes_transferred\<close> never
  exceeds \<open>file_size\<close> when \<open>file_size > 0\<close>: after any operation and in every state of the
  session, the terminal ones included.
\<close>

theorem sender_counter_bounded:
  assumes "sending fsize content s" and "length content \<le> fsize" and "0 < file_size s"
  shows "bytes_transferred s \<le> file_size s"
  using sender_inv_bound [OF sending_inv [OF assms(1)]] assms(2) by simp

theorem sender_counter_bounded_witness:
  "sending 3 [0x41, 0x42, 0x43] (snd (process_data [ACK, 0x02] sending_example)) \<and>
   length [0x41 :: byte, 0x42, 0x43] \<le> 3 \<and>
   0 < file_size (snd (process_data [ACK, 0x02] sending_example)) \<and>
   state (snd (process_data [ACK, 0x02] sending_example)) = S_EOF \<and>
   bytes_transferred (snd (process_data [ACK, 0x02] sending_example)) = 3 \<and>
   bytes_transferred (snd (process_data [ACK, 0x02] sending_example))
     \<le> file_size (snd (process_data [ACK, 0x02] sending_example))"
proof -
  have "state (init all_callbacks [] []) = IDLE"
    by (simp add: init_def)
  then have "sending 3 [0x41, 0x42, 0x43] sending_example"
    unfolding sending_example_def by (rule sending.started)
  then have s: "sending 3 [0x41, 0x42, 0x43] (snd (process_data [ACK, 0x02] sending_example))"
    by (rule sending.data)
  have v: "state (snd (process_data [ACK, 0x02] sending_example)) = S_EOF \<and>
           bytes_transferred (snd (process_data [ACK, 0x02] sending_example)) = 3 \<and>
           file_size (snd (process_data [ACK, 0x02] sending_example)) = 3"
    by code_simp
  then have pos: "0 < file_size (snd (process_data [ACK, 0x02] sending_example))"
    by simp
  have len: "length [0x41 :: byte, 0x42, 0x43] \<le> 3"
    by simp
  from s len pos sender_counter_bounded [OF s len pos] v show ?thesis by simp
qed

end
